theory Spec2Isabelle
  imports Complex_Main "HOL-Library.Sublist" "HOL-Library.Multiset"
begin

section \<open>JavaScript numbers\<close>

text \<open>
  A JavaScript number is a finite value, \<open>NaN\<close> or one of the two infinities. Finite
  values are carried as rationals (every double is one); the comparisons below are the
  IEEE ones, where every comparison with \<open>NaN\<close> is false. Arithmetic on finite values is
  exact: rounding and the sign of zero are not modelled.
\<close>

datatype jsnum = Fin rat | NaN | PosInf | NegInf

fun isFinite :: "jsnum \<Rightarrow> bool" where
  "isFinite (Fin x) = True"
| "isFinite NaN = False"
| "isFinite PosInf = False"
| "isFinite NegInf = False"

fun js_le :: "jsnum \<Rightarrow> jsnum \<Rightarrow> bool" where
  "js_le NaN b = False"
| "js_le a NaN = False"
| "js_le NegInf b = True"
| "js_le a PosInf = True"
| "js_le (Fin a) (Fin b) = (a \<le> b)"
| "js_le PosInf b = False"
| "js_le a NegInf = False"

section \<open>Tier classifier (tierMapping)\<close>

datatype CanonicalTier = Promo | Light | Medium | Heavy | Power

definition tierFromPlaycount :: "jsnum \<Rightarrow> CanonicalTier option" where
  "tierFromPlaycount playcount =
     (if \<not> isFinite playcount then None
      else if js_le playcount (Fin 1) then Some Promo
      else if js_le playcount (Fin 7) then Some Light
      else if js_le playcount (Fin 15) then Some Medium
      else if js_le playcount (Fin 29) then Some Heavy
      else Some Power)"

section \<open>Strings\<close>

text \<open>
  Strings are lists of 8-bit characters read as ASCII, with characters beyond ASCII
  carried as their UTF-8 bytes and never changed by case mapping. The model is exact on
  ASCII text; accent folding of other letters is not modelled.
\<close>

definition code :: "char \<Rightarrow> nat" where
  "code c = of_char c"

text \<open>White space (\<open>\s\<close>, \<open>trim\<close>): tab, line feed, vertical tab, form feed, carriage return, space.\<close>

definition isSpace :: "char \<Rightarrow> bool" where
  "isSpace c = (c = CHR 0x09 \<or> c = CHR 0x0A \<or> c = CHR 0x0B \<or> c = CHR 0x0C \<or> c = CHR 0x0D \<or> c = CHR '' '')"

definition isDigit :: "char \<Rightarrow> bool" where
  "isDigit c = (c \<in> set ''0123456789'')"

definition toLowerChar :: "char \<Rightarrow> char" where
  "toLowerChar c =
     (case map_of (zip ''ABCDEFGHIJKLMNOPQRSTUVWXYZ'' ''abcdefghijklmnopqrstuvwxyz'') c of
        Some l \<Rightarrow> l | None \<Rightarrow> c)"

definition toUpperChar :: "char \<Rightarrow> char" where
  "toUpperChar c =
     (case map_of (zip ''abcdefghijklmnopqrstuvwxyz'' ''ABCDEFGHIJKLMNOPQRSTUVWXYZ'') c of
        Some u \<Rightarrow> u | None \<Rightarrow> c)"

definition toLowerCase :: "string \<Rightarrow> string" where
  "toLowerCase s = map toLowerChar s"

definition toUpperCase :: "string \<Rightarrow> string" where
  "toUpperCase s = map toUpperChar s"

definition trim :: "string \<Rightarrow> string" where
  "trim s = rev (dropWhile isSpace (rev (dropWhile isSpace s)))"

definition backslash :: char where
  "backslash = CHR 0x5C"

text \<open>\<open>s.replace(/\\/g, '/')\<close>\<close>

definition slashify :: "string \<Rightarrow> string" where
  "slashify s = map (\<lambda>c. if c = backslash then CHR ''/'' else c) s"

text \<open>\<open>s.indexOf(m)\<close>, with \<open>None\<close> for \<open>-1\<close>.\<close>

fun indexOf :: "string \<Rightarrow> string \<Rightarrow> nat option" where
  "indexOf [] m = (if m = [] then Some 0 else None)"
| "indexOf (c # cs) m = (if prefix m (c # cs) then Some 0 else map_option Suc (indexOf cs m))"

text \<open>\<open>xs.join(sep)\<close>\<close>

fun join :: "string \<Rightarrow> string list \<Rightarrow> string" where
  "join sep [] = []"
| "join sep [x] = x"
| "join sep (x # y # ys) = x @ sep @ join sep (y # ys)"

text \<open>
  \<open>s.replace(/R+/g, ' ')\<close> for a character class \<open>R\<close>: every maximal run of characters
  of the class becomes one space.
\<close>

function replaceRuns :: "(char \<Rightarrow> bool) \<Rightarrow> string \<Rightarrow> string" where
  "replaceRuns p [] = []"
| "replaceRuns p (c # cs) =
     (if p c then CHR '' '' # replaceRuns p (dropWhile p cs) else c # replaceRuns p cs)"
  by pat_completeness auto
termination
  by (relation "measure (\<lambda>(p, s). length s)") (auto simp: le_imp_less_Suc length_dropWhile_le)

text \<open>
  \<open>s.split(/\s+/)\<close>: the pieces between maximal runs of white space, with an empty piece
  before a leading run and after a trailing one.
\<close>

function splitWs :: "string \<Rightarrow> string list" where
  "splitWs s =
     (let w = takeWhile (\<lambda>c. \<not> isSpace c) s; r = dropWhile (\<lambda>c. \<not> isSpace c) s
      in if r = [] then [w] else w # splitWs (dropWhile isSpace r))"
  by pat_completeness auto
termination
proof (relation "measure length")
  fix s w r
  assume r: "r = dropWhile (\<lambda>c. \<not> isSpace c) s" and ne: "r \<noteq> []"
  from ne obtain c cs where rc: "r = c # cs" by (cases r) auto
  have "length (dropWhile isSpace cs) \<le> length cs" by (rule length_dropWhile_le)
  moreover have "isSpace c" using r rc dropWhile_eq_Cons_conv [of "\<lambda>c. \<not> isSpace c" s c cs] by simp
  ultimately have "length (dropWhile isSpace r) < length r" using rc
    by (simp add: le_imp_less_Suc length_dropWhile_le)
  moreover have "length r \<le> length s" unfolding r by (rule length_dropWhile_le)
  ultimately show "(dropWhile isSpace r, s) \<in> measure length" by simp
qed simp

text \<open>\<open>s.split(sep)\<close> for a non-empty separator string; \<open>acc\<close> is the current piece, reversed.\<close>

function splitOn :: "string \<Rightarrow> string \<Rightarrow> string \<Rightarrow> string list" where
  "splitOn sep acc [] = [rev acc]"
| "splitOn sep acc (c # cs) =
     (if sep \<noteq> [] \<and> prefix sep (c # cs) then rev acc # splitOn sep [] (drop (length sep - 1) cs)
      else splitOn sep (c # acc) cs)"
  by pat_completeness auto
termination
  by (relation "measure (\<lambda>(sep, acc, s). length s)") auto

text \<open>\<open>String(n)\<close> for a non-negative integer below \<open>10^21\<close>: its decimal digits.\<close>

fun decimal :: "nat \<Rightarrow> string" where
  "decimal n =
     (if n < 10 then [''0123456789'' ! n] else decimal (n div 10) @ [''0123456789'' ! (n mod 10)])"

declare decimal.simps [simp del]
declare splitWs.simps [simp del]

text \<open>\<open>Number(s)\<close> for a string of decimal digits.\<close>

definition digitsValue :: "string \<Rightarrow> nat" where
  "digitsValue s = foldl (\<lambda>a c. 10 * a + (code c - code CHR ''0'')) 0 s"

text \<open>\<open>a || b\<close> on strings: the empty string is falsy.\<close>

definition orElse :: "string \<Rightarrow> string \<Rightarrow> string" where
  "orElse a b = (if a = [] then b else a)"

section \<open>JavaScript values\<close>

datatype jsval =
    Undefined | Null | Bool bool | Num jsnum | Str string
  | Arr "jsval list" | Obj "(string \<times> jsval) list"

text \<open>Property read \<open>o.k\<close> (and \<open>o?.k\<close>) on parsed JSON: \<open>undefined\<close> when absent.\<close>

definition getField :: "(string \<times> jsval) list \<Rightarrow> string \<Rightarrow> jsval" where
  "getField props k = (case map_of props k of None \<Rightarrow> Undefined | Some v \<Rightarrow> v)"

fun getProp :: "jsval \<Rightarrow> string \<Rightarrow> jsval" where
  "getProp (Obj props) k = getField props k"
| "getProp v k = Undefined"

text \<open>\<open>a ?? b\<close>\<close>

definition nullish :: "jsval \<Rightarrow> jsval \<Rightarrow> jsval" where
  "nullish a b = (if a = Undefined \<or> a = Null then b else a)"

text \<open>
  The platform's conversions between strings and numbers are not part of the repository;
  the model takes them as a parameter: \<open>Number(s)\<close> on a string, \<open>String(x)\<close> on a finite
  number, and \<open>Number(v)\<close> on an array or object.
\<close>

record jsenv =
  strToNum :: "string \<Rightarrow> jsnum"
  numToStr :: "rat \<Rightarrow> string"
  objToNum :: "jsval \<Rightarrow> jsnum"

text \<open>\<open>Number(v)\<close>\<close>

fun js_Number :: "jsenv \<Rightarrow> jsval \<Rightarrow> jsnum" where
  "js_Number E Undefined = NaN"
| "js_Number E Null = Fin 0"
| "js_Number E (Bool b) = Fin (if b then 1 else 0)"
| "js_Number E (Num n) = n"
| "js_Number E (Str s) = strToNum E s"
| "js_Number E v = objToNum E v"

text \<open>\<open>Math.trunc\<close> on a finite number\<close>

definition js_trunc :: "rat \<Rightarrow> int" where
  "js_trunc x = (if 0 \<le> x then \<lfloor>x\<rfloor> else \<lceil>x\<rceil>)"

section \<open>Path normalizer (videoPath)\<close>

definition CANONICAL_VIDEO_ROOT :: string where
  "CANONICAL_VIDEO_ROOT = ''/Users/bobhopp/Library/CloudStorage/Dropbox/VIDEO''"

record NormalizedPath =
  relativePath :: "string option"
  absolutePath :: "string option"

definition normalizeVideoPath :: "string \<Rightarrow> NormalizedPath" where
  "normalizeVideoPath inputPath =
     (if inputPath = [] then \<lparr>relativePath = None, absolutePath = None\<rparr>
      else case indexOf inputPath ''/VIDEO/'' of
        None \<Rightarrow> \<lparr>relativePath = None, absolutePath = None\<rparr>
      | Some idx \<Rightarrow>
          (let tail = drop (idx + 1) inputPath;
               rel = slashify tail;
               stripped = (if prefix ''VIDEO/'' rel then drop (length ''VIDEO/'') rel else rel)
           in \<lparr>relativePath = Some rel,
               absolutePath = Some (CANONICAL_VIDEO_ROOT @ ''/'' @ stripped)\<rparr>))"

section \<open>Record normalizer (videoIndex)\<close>

type_synonym RawVideoIndexItem = "(string \<times> jsval) list"

datatype RetentionGrade = GradeS | GradeA | GradeB | GradeC

text \<open>
  The fields of \<open>VideoRecord\<close> that the library filter, the sampler and the properties
  below read. The other fields of the source's record (labels, urls, duration, stars and
  so on) are each computed from the item alone and are left out.
\<close>

record VideoRecord =
  id' :: string
  videoId :: "string option"
  filePath :: string
  absPath :: "string option"
  title :: string
  artist :: string
  album :: string
  genre :: string
  year :: "int option"
  playcount :: int
  tier :: "CanonicalTier option"
  retentionScore :: int
  retentionGrade :: RetentionGrade
  retentionBreakdown :: "(string \<times> jsnum) list option"

definition clampToInt :: "jsenv \<Rightarrow> jsval \<Rightarrow> int option" where
  "clampToInt E v =
     (case v of
        Num n \<Rightarrow> (case n of Fin x \<Rightarrow> Some (js_trunc x) | _ \<Rightarrow> None)
      | Str s \<Rightarrow>
          (if trim s \<noteq> [] then (case strToNum E s of Fin x \<Rightarrow> Some (js_trunc x) | _ \<Rightarrow> None)
           else None)
      | _ \<Rightarrow> None)"

definition asString :: "jsenv \<Rightarrow> jsval \<Rightarrow> string" where
  "asString E v =
     (case v of
        Str s \<Rightarrow> trim s
      | Num n \<Rightarrow> (case n of Fin x \<Rightarrow> numToStr E x | _ \<Rightarrow> [])
      | _ \<Rightarrow> [])"

definition cleanMusicText :: "string \<Rightarrow> string" where
  "cleanMusicText v =
     (if v = [] then []
      else trim (replaceRuns isSpace (map (\<lambda>c. if c = CHR ''_'' then CHR '' '' else c) v)))"

text \<open>\<open>p.split(/[/\\]/).pop()\<close>: the part after the last slash or backslash.\<close>

definition lastSegment :: "string \<Rightarrow> string" where
  "lastSegment p = rev (takeWhile (\<lambda>c. c \<noteq> CHR ''/'' \<and> c \<noteq> backslash) (rev p))"

definition isAlnum :: "char \<Rightarrow> bool" where
  "isAlnum c = (isDigit c \<or> c \<in> set ''abcdefghijklmnopqrstuvwxyz'' \<or> c \<in> set ''ABCDEFGHIJKLMNOPQRSTUVWXYZ'')"

text \<open>\<open>name.replace(/\.[a-z0-9]+$/i, '')\<close>\<close>

definition stripExt :: "string \<Rightarrow> string" where
  "stripExt name =
     (let ext = takeWhile isAlnum (rev name); rest = dropWhile isAlnum (rev name)
      in if ext \<noteq> [] \<and> rest \<noteq> [] \<and> hd rest = CHR ''.'' then rev (tl rest) else name)"

definition deriveTitle :: "string \<Rightarrow> string" where
  "deriveTitle p =
     (let withoutExt = stripExt (lastSegment p);
          split = splitOn '' - '' [] withoutExt
      in if length split > 1
         then orElse (cleanMusicText (join '' - '' (tl split)))
                (orElse (cleanMusicText withoutExt) ''Untitled'')
         else orElse (cleanMusicText withoutExt) ''Untitled'')"

definition deriveArtist :: "string \<Rightarrow> string" where
  "deriveArtist p =
     (let withoutExt = stripExt (lastSegment p)
      in if sublist '' - '' withoutExt
         then orElse (cleanMusicText (case splitOn '' - '' [] withoutExt of
                                        [] \<Rightarrow> [] | first # _ \<Rightarrow> first)) ''Unknown''
         else ''Unknown'')"

definition tierName :: "CanonicalTier \<Rightarrow> string" where
  "tierName t = (case t of Promo \<Rightarrow> ''Promo'' | Light \<Rightarrow> ''Light'' | Medium \<Rightarrow> ''Medium''
                 | Heavy \<Rightarrow> ''Heavy'' | Power \<Rightarrow> ''Power'')"

definition normalizeCanonicalTier :: "jsval \<Rightarrow> CanonicalTier option" where
  "normalizeCanonicalTier v =
     (case v of
        Str s \<Rightarrow>
          (let normalized = toLowerCase (trim s)
           in if normalized = ''promo'' then Some Promo
              else if normalized = ''light'' then Some Light
              else if normalized = ''medium'' then Some Medium
              else if normalized = ''heavy'' then Some Heavy
              else if normalized = ''power'' then Some Power
              else None)
      | _ \<Rightarrow> None)"

definition gradeName :: "RetentionGrade \<Rightarrow> string" where
  "gradeName g = (case g of GradeS \<Rightarrow> ''S'' | GradeA \<Rightarrow> ''A'' | GradeB \<Rightarrow> ''B'' | GradeC \<Rightarrow> ''C'')"

definition normalizeRetentionGrade :: "jsval \<Rightarrow> RetentionGrade" where
  "normalizeRetentionGrade v =
     (case v of
        Str s \<Rightarrow>
          (let normalized = toUpperCase (trim s)
           in if normalized = ''S'' then GradeS
              else if normalized = ''A'' then GradeA
              else if normalized = ''B'' then GradeB
              else GradeC)
      | _ \<Rightarrow> GradeC)"

definition breakdownKeys :: "string list" where
  "breakdownKeys =
     [''xmlLifetimePlaycount'', ''historicalPlays'', ''eventDiversity'',
      ''bpmTransitionUtility'', ''genreCoverageUniqueness'', ''artistPresenceNetwork'',
      ''eraRelevance'', ''metadataCompleteness'', ''freshnessCurve'']"

text \<open>
  The loop of \<open>toRetentionBreakdown\<close>: \<open>out\<close> is the object filled so far, as the list of
  its properties in insertion order.
\<close>

fun fillBreakdown ::
  "jsenv \<Rightarrow> (string \<times> jsval) list \<Rightarrow> string list \<Rightarrow> (string \<times> jsnum) list
     \<Rightarrow> (string \<times> jsnum) list option" where
  "fillBreakdown E row [] out = Some out"
| "fillBreakdown E row (key # keys) out =
     (let raw = getField row key;
          parsed = (case raw of
                      Num n \<Rightarrow> if isFinite n then n else js_Number E raw
                    | _ \<Rightarrow> js_Number E raw)
      in if \<not> isFinite parsed then None
         else fillBreakdown E row keys (out @ [(key, parsed)]))"

definition toRetentionBreakdown :: "jsenv \<Rightarrow> jsval \<Rightarrow> (string \<times> jsnum) list option" where
  "toRetentionBreakdown E v =
     (case v of Obj row \<Rightarrow> fillBreakdown E row breakdownKeys [] | _ \<Rightarrow> None)"

definition EM_DASH :: string where
  "EM_DASH = [CHR 0xE2, CHR 0x80, CHR 0x94]"

text \<open>\<open>a ?? b\<close> on the results of \<open>clampToInt\<close>\<close>

definition orInt :: "int option \<Rightarrow> int option \<Rightarrow> int option" where
  "orInt a b = (case a of None \<Rightarrow> b | Some x \<Rightarrow> Some x)"

definition resolvePlaycount :: "jsenv \<Rightarrow> RawVideoIndexItem \<Rightarrow> int" where
  "resolvePlaycount E item =
     (case orInt (clampToInt E (getField item ''playcount''))
             (orInt (clampToInt E (getField item ''playCount''))
                (clampToInt E (getField item ''play_count''))) of
        None \<Rightarrow> 0 | Some n \<Rightarrow> n)"

text \<open>\<open>item.tags && typeof item.tags === 'object' ? item.tags : undefined\<close>\<close>

definition objectOrUndefined :: "jsval \<Rightarrow> jsval" where
  "objectOrUndefined v = (case v of Obj ps \<Rightarrow> v | Arr xs \<Rightarrow> v | _ \<Rightarrow> Undefined)"

text \<open>\<open>asString(item.filePath ?? item.filepath)\<close>\<close>

definition rawPathOf :: "jsenv \<Rightarrow> RawVideoIndexItem \<Rightarrow> string" where
  "rawPathOf E item = asString E (nullish (getField item ''filePath'') (getField item ''filepath''))"

text \<open>\<open>asString(item.videoId ?? item.video_id) || normalized.relativePath || `video-${idx}`\<close>\<close>

definition idBaseOf :: "jsenv \<Rightarrow> RawVideoIndexItem \<Rightarrow> string \<Rightarrow> nat \<Rightarrow> string" where
  "idBaseOf E item rel idx =
     orElse (asString E (nullish (getField item ''videoId'') (getField item ''video_id'')))
       (orElse rel (''video-'' @ decimal idx))"

text \<open>The object literal \<open>row\<close>, given the relative and absolute path and the id.\<close>

definition mkRow ::
  "jsenv \<Rightarrow> RawVideoIndexItem \<Rightarrow> string \<Rightarrow> string option \<Rightarrow> string \<Rightarrow> VideoRecord" where
  "mkRow E item rel absolute rowId =
     (let tags = objectOrUndefined (getField item ''tags'');
          pc = resolvePlaycount E item;
          vidStr = asString E (nullish (getField item ''videoId'') (getField item ''video_id''));
          inferredTier = tierFromPlaycount (Fin (of_int pc));
          normalizedTier = normalizeCanonicalTier (getField item ''tier'')
      in \<lparr>id' = rowId,
          videoId = (if vidStr = [] then None else Some vidStr),
          filePath = rel,
          absPath = absolute,
          title = orElse (cleanMusicText (asString E (getField item ''title''))) (deriveTitle rel),
          artist = orElse (cleanMusicText (asString E
                      (nullish (getField item ''artist'') (getField item ''author''))))
                    (deriveArtist rel),
          album = orElse (cleanMusicText (asString E
                      (nullish (getField item ''album'') (getProp tags ''album''))))
                    EM_DASH,
          genre = orElse (cleanMusicText (asString E
                      (nullish (getField item ''genre'') (getProp tags ''genre''))))
                    EM_DASH,
          year = clampToInt E (getField item ''year''),
          playcount = pc,
          tier = (case inferredTier of Some t \<Rightarrow> Some t | None \<Rightarrow> normalizedTier),
          retentionScore =
            (case clampToInt E (nullish (getField item ''retentionScore'')
                                  (getField item ''retention_score'')) of
               None \<Rightarrow> 0 | Some n \<Rightarrow> n),
          retentionGrade = normalizeRetentionGrade
            (nullish (getField item ''retentionGrade'') (getField item ''retention_grade'')),
          retentionBreakdown = toRetentionBreakdown E
            (nullish (getField item ''retentionBreakdown'') (getField item ''retention_breakdown''))\<rparr>)"

text \<open>
  The callback of \<open>items.map\<close> in \<open>parseVideoIndexRows\<close>. It reads and updates the map
  \<open>ids\<close> of id bases seen so far; the result is the updated map and the row, or \<open>None\<close>
  for the \<open>null\<close> that the following \<open>filter\<close> removes.
\<close>

definition parseRow ::
  "jsenv \<Rightarrow> (string \<rightharpoonup> nat) \<Rightarrow> nat \<Rightarrow> RawVideoIndexItem
     \<Rightarrow> (string \<rightharpoonup> nat) \<times> VideoRecord option" where
  "parseRow E ids idx item =
     (let rawPath = rawPathOf E item
      in if rawPath = [] then (ids, None)
         else
           let normalized = normalizeVideoPath rawPath
           in case relativePath normalized of
                None \<Rightarrow> (ids, None)
              | Some rel \<Rightarrow>
                  if rel = [] then (ids, None)
                  else
                    let idBase = idBaseOf E item rel idx;
                        duplicate = (case ids idBase of None \<Rightarrow> 0 | Some d \<Rightarrow> d)
                    in (ids(idBase \<mapsto> duplicate + 1),
                        Some (mkRow E item rel (absolutePath normalized)
                                (if duplicate = 0 then idBase
                                 else idBase @ ''#'' @ decimal duplicate))))"

text \<open>\<open>items.map(callback).filter(Boolean)\<close>, threading \<open>ids\<close> and the index through.\<close>

fun rowsFrom ::
  "jsenv \<Rightarrow> (string \<rightharpoonup> nat) \<Rightarrow> nat \<Rightarrow> RawVideoIndexItem list \<Rightarrow> VideoRecord list" where
  "rowsFrom E ids idx [] = []"
| "rowsFrom E ids idx (item # rest) =
     (case parseRow E ids idx item of
        (ids', None) \<Rightarrow> rowsFrom E ids' (Suc idx) rest
      | (ids', Some row) \<Rightarrow> row # rowsFrom E ids' (Suc idx) rest)"

definition parseVideoIndexRows :: "jsenv \<Rightarrow> RawVideoIndexItem list \<Rightarrow> VideoRecord list" where
  "parseVideoIndexRows E items = rowsFrom E Map.empty 0 items"

text \<open>
  A concrete platform for running examples: plain decimal digit strings read as their
  value, non-negative integers print in decimal.
\<close>

definition decimalEnv :: jsenv where
  "decimalEnv =
     \<lparr>strToNum = (\<lambda>s. if s \<noteq> [] \<and> list_all isDigit s then Fin (of_nat (digitsValue s)) else NaN),
      numToStr = (\<lambda>x. if 0 \<le> x \<and> of_int \<lfloor>x\<rfloor> = x then decimal (nat \<lfloor>x\<rfloor>) else []),
      objToNum = (\<lambda>v. NaN)\<rparr>"

section \<open>Query parser and library filter (VideoLibrary)\<close>

definition isLowerAlnum :: "char \<Rightarrow> bool" where
  "isLowerAlnum c = (c \<in> set ''abcdefghijklmnopqrstuvwxyz0123456789'')"

text \<open>
  \<open>normalizeSearchText\<close>: lower-case, fold accents (the identity on ASCII text), turn
  every run of characters outside \<open>[a-z0-9]\<close> into one space, trim.
\<close>

definition normalizeSearchText :: "string \<Rightarrow> string" where
  "normalizeSearchText v = trim (replaceRuns (\<lambda>c. \<not> isLowerAlnum c) (toLowerCase v))"

definition tokenize :: "string \<Rightarrow> string list" where
  "tokenize v = (let normalized = normalizeSearchText v
                 in if normalized = [] then [] else splitWs normalized)"

text \<open>\<open>/^\d{2,4}$/.test(v)\<close>\<close>

definition digits2to4 :: "string \<Rightarrow> bool" where
  "digits2to4 v = (2 \<le> length v \<and> length v \<le> 4 \<and> list_all isDigit v)"

definition parseYearToken :: "string \<Rightarrow> int option" where
  "parseYearToken v =
     (if \<not> digits2to4 v then None
      else if length v = 2 then Some (1900 + int (digitsValue v))
      else Some (int (digitsValue v)))"

record YearRange =
  rangeStart :: int
  rangeEnd :: int

text \<open>
  \<open>parseYearRangeToken\<close>. The match of \<open>/^(\d{2,4})-(\d{2,4})$/\<close> is unique when there is
  one: the first group is the leading run of digits, followed by the hyphen, and the
  second group is the rest.
\<close>

definition parseYearRangeToken :: "string \<Rightarrow> YearRange option" where
  "parseYearRangeToken v =
     (let m1 = takeWhile isDigit v; rest = dropWhile isDigit v
      in case rest of
           [] \<Rightarrow> None
         | c # m2 \<Rightarrow>
             if \<not> (c = CHR ''-'' \<and> digits2to4 m1 \<and> digits2to4 m2) then None
             else case parseYearToken m1 of
                    None \<Rightarrow> None
                  | Some left \<Rightarrow>
                      (case parseYearToken m2 of
                         None \<Rightarrow> None
                       | Some right0 \<Rightarrow>
                           (let right = (if length m1 = 4 \<and> length m2 = 2
                                         then (left div 100) * 100 + int (digitsValue m2)
                                         else right0)
                            in Some \<lparr>rangeStart = min left right, rangeEnd = max left right\<rparr>)))"

record ParsedQuery =
  textTokens :: "string list"
  yearValues :: "int list"
  yearRanges :: "YearRange list"

text \<open>\<open>query.replace(/[\<dots>]/g, '-')\<close> for the en dash and the em dash, in UTF-8.\<close>

fun replaceDashes :: "string \<Rightarrow> string" where
  "replaceDashes (a # b # c # rest) =
     (if a = CHR 0xE2 \<and> b = CHR 0x80 \<and> (c = CHR 0x93 \<or> c = CHR 0x94)
      then CHR ''-'' # replaceDashes rest
      else a # replaceDashes (b # c # rest))"
| "replaceDashes s = s"

text \<open>\<open>token.replace(/[^0-9a-z-]/g, '')\<close>\<close>

definition cleanToken :: "string \<Rightarrow> string" where
  "cleanToken token = filter (\<lambda>c. isLowerAlnum c \<or> c = CHR ''-'') token"

text \<open>The \<open>for\<close> loop of \<open>parseSearch\<close> over the raw tokens, with its three arrays.\<close>

fun classifyTokens ::
  "string list \<Rightarrow> string list \<times> int list \<times> YearRange list
     \<Rightarrow> string list \<times> int list \<times> YearRange list" where
  "classifyTokens [] acc = acc"
| "classifyTokens (token # rest) (textParts, years, ranges) =
     (let cleaned = cleanToken token
      in if cleaned = [] then classifyTokens rest (textParts, years, ranges)
         else case parseYearRangeToken cleaned of
                Some yearRange \<Rightarrow> classifyTokens rest (textParts, years, ranges @ [yearRange])
              | None \<Rightarrow>
                  (case parseYearToken cleaned of
                     Some yearValue \<Rightarrow>
                       if length cleaned = 4
                       then classifyTokens rest (textParts, years @ [yearValue], ranges)
                       else classifyTokens rest (textParts @ [cleaned], years, ranges)
                   | None \<Rightarrow> classifyTokens rest (textParts @ [cleaned], years, ranges)))"

text \<open>The tokens the loop classifies: the raw tokens, cleaned, without the empty ones.\<close>

definition cleanedTokens :: "string list \<Rightarrow> string list" where
  "cleanedTokens toks = filter (\<lambda>t. t \<noteq> []) (map cleanToken toks)"

definition rawTokens :: "string \<Rightarrow> string list" where
  "rawTokens query =
     filter (\<lambda>t. t \<noteq> []) (map trim (splitWs (toLowerCase (replaceDashes query))))"

definition parseSearch :: "string \<Rightarrow> ParsedQuery" where
  "parseSearch query =
     (case classifyTokens (rawTokens query) ([], [], []) of
        (textParts, years, ranges) \<Rightarrow>
          \<lparr>textTokens = tokenize (join '' '' textParts), yearValues = years, yearRanges = ranges\<rparr>)"

datatype DecadePill = D60s | D70s | D80s | D90s | D00s | D10s

definition matchesDecade :: "int option \<Rightarrow> DecadePill \<Rightarrow> bool" where
  "matchesDecade y pill =
     (case y of
        None \<Rightarrow> False
      | Some yr \<Rightarrow>
          if pill = D60s then 1960 \<le> yr \<and> yr \<le> 1969
          else if pill = D70s then 1970 \<le> yr \<and> yr \<le> 1979
          else if pill = D80s then 1980 \<le> yr \<and> yr \<le> 1989
          else if pill = D90s then 1990 \<le> yr \<and> yr \<le> 1999
          else if pill = D00s then 2000 \<le> yr \<and> yr \<le> 2009
          else 2010 \<le> yr)"

text \<open>The decade stage of \<open>filteredVideos\<close>.\<close>

definition decadeStage :: "DecadePill list \<Rightarrow> VideoRecord \<Rightarrow> bool" where
  "decadeStage activeDecades row =
     (if activeDecades = [] then True
      else list_ex (\<lambda>pill. matchesDecade (year row) pill) activeDecades)"

definition rowSearchText :: "jsenv \<Rightarrow> VideoRecord \<Rightarrow> string" where
  "rowSearchText E row =
     toLowerCase (join '' ''
       [title row, artist row,
        (case year row of None \<Rightarrow> [] | Some y \<Rightarrow> if y = 0 then [] else numToStr E (of_int y)),
        filePath row, album row, genre row, gradeName (retentionGrade row),
        (case tier row of None \<Rightarrow> [] | Some t \<Rightarrow> tierName t)])"

text \<open>The first stage of \<open>filteredVideos\<close>: text tokens, exact years, year ranges.\<close>

definition textYearStage :: "jsenv \<Rightarrow> ParsedQuery \<Rightarrow> VideoRecord \<Rightarrow> bool" where
  "textYearStage E query row =
     (let rowText = rowSearchText E row
      in if textTokens query \<noteq> [] \<and>
            \<not> list_all (\<lambda>token. list_ex (\<lambda>word. prefix token word) (tokenize rowText))
                 (textTokens query)
         then False
         else if yearValues query \<noteq> [] \<and>
                 (year row = None \<or> \<not> list_all (\<lambda>y. year row = Some y) (yearValues query))
         then False
         else if yearRanges query \<noteq> [] \<and>
                 (case year row of
                    None \<Rightarrow> True
                  | Some y \<Rightarrow> \<not> list_all (\<lambda>r. rangeStart r \<le> y \<and> y \<le> rangeEnd r) (yearRanges query))
         then False
         else True)"

section \<open>Weighted set sampler (SetBuilder)\<close>

text \<open>Arithmetic on numbers, with the special values of IEEE arithmetic.\<close>

fun js_neg :: "jsnum \<Rightarrow> jsnum" where
  "js_neg (Fin a) = Fin (- a)"
| "js_neg NaN = NaN"
| "js_neg PosInf = NegInf"
| "js_neg NegInf = PosInf"

fun js_add :: "jsnum \<Rightarrow> jsnum \<Rightarrow> jsnum" where
  "js_add (Fin a) (Fin b) = Fin (a + b)"
| "js_add NaN b = NaN"
| "js_add a NaN = NaN"
| "js_add PosInf NegInf = NaN"
| "js_add NegInf PosInf = NaN"
| "js_add (Fin a) b = b"
| "js_add a b = a"

definition js_sub :: "jsnum \<Rightarrow> jsnum \<Rightarrow> jsnum" where
  "js_sub a b = js_add a (js_neg b)"

fun js_mul :: "jsnum \<Rightarrow> jsnum \<Rightarrow> jsnum" where
  "js_mul (Fin a) (Fin b) = Fin (a * b)"
| "js_mul NaN b = NaN"
| "js_mul a NaN = NaN"
| "js_mul (Fin a) b = (if a = 0 then NaN else if (0 < a) = (b = PosInf) then PosInf else NegInf)"
| "js_mul a (Fin b) = (if b = 0 then NaN else if (0 < b) = (a = PosInf) then PosInf else NegInf)"
| "js_mul a b = (if a = b then PosInf else NegInf)"

fun js_div :: "jsnum \<Rightarrow> jsnum \<Rightarrow> jsnum" where
  "js_div (Fin a) (Fin b) =
     (if b = 0 then (if a = 0 then NaN else if 0 < a then PosInf else NegInf) else Fin (a / b))"
| "js_div NaN b = NaN"
| "js_div a NaN = NaN"
| "js_div (Fin a) b = Fin 0"
| "js_div a (Fin b) = (if (0 \<le> b) = (a = PosInf) then PosInf else NegInf)"
| "js_div a b = NaN"

text \<open>\<open>Math.max(a, b)\<close> and \<open>Math.min(a, b)\<close>\<close>

definition js_max :: "jsnum \<Rightarrow> jsnum \<Rightarrow> jsnum" where
  "js_max a b = (if a = NaN \<or> b = NaN then NaN else if js_le a b then b else a)"

definition js_min :: "jsnum \<Rightarrow> jsnum \<Rightarrow> jsnum" where
  "js_min a b = (if a = NaN \<or> b = NaN then NaN else if js_le a b then a else b)"

definition clamp :: "jsnum \<Rightarrow> jsnum \<Rightarrow> jsnum \<Rightarrow> jsnum" where
  "clamp v lo hi = js_min hi (js_max lo v)"

text \<open>
  The weight of one item in \<open>weightedPick\<close>; \<open>r\<close> is the value of the call of
  \<open>Math.random()\<close> made for this item. The history weights are a map from keys to numbers.
\<close>

definition itemWeight :: "jsnum \<Rightarrow> (string \<rightharpoonup> jsnum) \<Rightarrow> VideoRecord \<Rightarrow> jsnum \<Rightarrow> jsnum" where
  "itemWeight intensity historyWeights item r =
     (let libraryPlays = js_max (Fin 0) (Fin (of_int (playcount item)));
          historyPlays = js_max (Fin 0)
            (case historyWeights (filePath item) of
               Some w \<Rightarrow> w
             | None \<Rightarrow> (case historyWeights (id' item) of Some w \<Rightarrow> w | None \<Rightarrow> Fin 0));
          combinedPlays = js_add libraryPlays historyPlays;
          novelty = js_div (Fin 1) (js_add (Fin 1) combinedPlays);
          retention = clamp (js_div (Fin (of_int (retentionScore item))) (Fin 100)) (Fin 0) (Fin 1);
          retentionBias = js_add (Fin (65 / 100)) (js_mul retention (Fin (11 / 10)))
      in js_mul retentionBias
           (js_add (js_add (Fin 1) (js_mul intensity r)) (js_mul novelty (js_div intensity (Fin 2)))))"

text \<open>
  The inner \<open>for\<close> loop: the first index at which the running cursor drops to zero or
  below; \<open>selected\<close> stays \<open>0\<close> when the loop ends without a \<open>break\<close>.
\<close>

fun roulette :: "jsnum \<Rightarrow> jsnum list \<Rightarrow> nat \<Rightarrow> nat" where
  "roulette cursor [] index = 0"
| "roulette cursor (w # ws) index =
     (let cursor' = js_sub cursor w
      in if js_le cursor' (Fin 0) then index else roulette cursor' ws (Suc index))"

text \<open>
  One round of the \<open>while\<close> loop picks the position \<open>selected\<close>. The calls of
  \<open>Math.random()\<close> are the values \<open>rnd 0, rnd 1, \<dots>\<close>; \<open>k\<close> counts the calls made so far.
\<close>

definition selectIndex ::
  "(nat \<Rightarrow> rat) \<Rightarrow> nat \<Rightarrow> jsnum \<Rightarrow> (string \<rightharpoonup> jsnum) \<Rightarrow> VideoRecord list \<Rightarrow> nat" where
  "selectIndex rnd k intensity historyWeights available =
     (let weights = map (\<lambda>(i, item). itemWeight intensity historyWeights item (Fin (rnd (k + i))))
                      (zip [0..<length available] available);
          total = foldl js_add (Fin 0) weights;
          cursor = js_mul (Fin (rnd (k + length available))) total
      in roulette cursor weights 0)"

text \<open>\<open>xs.splice(i, 1)\<close>: nothing is removed when \<open>i\<close> is out of range.\<close>

definition splice1 :: "nat \<Rightarrow> 'a list \<Rightarrow> 'a list" where
  "splice1 i xs = take i xs @ drop (Suc i) xs"

text \<open>The selected position is always inside the remaining pool, so each round removes one item.\<close>

lemma roulette_lt: "ws \<noteq> [] \<Longrightarrow> roulette c ws i < i + length ws"
proof (induction ws arbitrary: c i)
  case Nil
  then show ?case by simp
next
  case (Cons w ws)
  show ?case
  proof (cases "ws = []")
    case True
    then show ?thesis by (simp add: Let_def)
  next
    case False
    from Cons.IH [OF False, of "js_sub c w" "Suc i"] show ?thesis by (simp add: Let_def)
  qed
qed

lemma selectIndex_lt:
  "available \<noteq> [] \<Longrightarrow> selectIndex rnd k intensity hw available < length available"
  using roulette_lt [of "map (\<lambda>(i, item). itemWeight intensity hw item (Fin (rnd (k + i))))
                      (zip [0..<length available] available)" _ 0]
  by (simp add: selectIndex_def Let_def)

text \<open>
  The \<open>while\<close> loop of \<open>weightedPick\<close>. The count is an integer: the caller passes
  one of 5, 10, 15, 20, 25, clamped to the range from 1 to 50.
\<close>

function pickLoop ::
  "(nat \<Rightarrow> rat) \<Rightarrow> nat \<Rightarrow> jsnum \<Rightarrow> (string \<rightharpoonup> jsnum) \<Rightarrow> int
     \<Rightarrow> VideoRecord list \<Rightarrow> VideoRecord list \<Rightarrow> VideoRecord list" where
  "pickLoop rnd k intensity historyWeights count' available picks =
     (if available \<noteq> [] \<and> int (length picks) < count'
      then let selected = selectIndex rnd k intensity historyWeights available
           in pickLoop rnd (k + length available + 1) intensity historyWeights count'
                (splice1 selected available) (picks @ [available ! selected])
      else picks)"
  by pat_completeness auto
termination
proof (relation "measure (\<lambda>(rnd, k, intensity, hw, count', available, picks). length available)")
  fix rnd :: "nat \<Rightarrow> rat" and k intensity and historyWeights :: "string \<rightharpoonup> jsnum"
    and count' :: int and available picks :: "VideoRecord list" and selected
  assume a: "available \<noteq> [] \<and> int (length picks) < count'"
    and s: "selected = selectIndex rnd k intensity historyWeights available"
  from a s have "selected < length available" by (simp add: selectIndex_lt)
  then show "((rnd, k + length available + 1, intensity, historyWeights, count',
               splice1 selected available, picks @ [available ! selected]),
              (rnd, k, intensity, historyWeights, count', available, picks))
             \<in> measure (\<lambda>(rnd, k, intensity, hw, count', available, picks). length available)"
    by (simp add: splice1_def)
qed simp

declare pickLoop.simps [simp del]

definition weightedPick ::
  "(nat \<Rightarrow> rat) \<Rightarrow> VideoRecord list \<Rightarrow> int \<Rightarrow> jsnum \<Rightarrow> (string \<rightharpoonup> jsnum) \<Rightarrow> VideoRecord list" where
  "weightedPick rnd items count' intensity historyWeights =
     pickLoop rnd 0 intensity historyWeights count' items []"

section \<open>History weight aggregator (SetBuilder)\<close>

text \<open>\<open>typeof stats?.totalPlays === 'number' ? stats.totalPlays : 0\<close>\<close>

definition totalPlays :: "jsval \<Rightarrow> jsnum" where
  "totalPlays stats = (case getProp stats ''totalPlays'' of Num n \<Rightarrow> n | _ \<Rightarrow> Fin 0)"

text \<open>The marker-relative key derived from a history key, when the marker is found.\<close>

definition relKey :: "string \<Rightarrow> string option" where
  "relKey songKey =
     (let normalized = slashify songKey
      in case indexOf (toUpperCase normalized) ''/VIDEO/'' of
           None \<Rightarrow> None
         | Some videoMarker \<Rightarrow>
             Some (slashify (''/VIDEO/'' @ drop (videoMarker + length ''/VIDEO/'') normalized)))"

definition bumpMax :: "(string \<rightharpoonup> jsnum) \<Rightarrow> string \<Rightarrow> jsnum \<Rightarrow> (string \<rightharpoonup> jsnum)" where
  "bumpMax weights k plays =
     weights(k \<mapsto> js_max (case weights k of None \<Rightarrow> Fin 0 | Some w \<Rightarrow> w) plays)"

text \<open>The loop over \<open>Object.entries(history.perSong)\<close>, own properties only.\<close>

fun buildWeights :: "(string \<times> jsval) list \<Rightarrow> (string \<rightharpoonup> jsnum) \<Rightarrow> (string \<rightharpoonup> jsnum)" where
  "buildWeights [] weights = weights"
| "buildWeights ((songKey, stats) # rest) weights =
     (let plays = totalPlays stats;
          weights1 = (case relKey songKey of
                        None \<Rightarrow> weights
                      | Some rel \<Rightarrow> bumpMax weights rel plays);
          weights2 = bumpMax weights1 songKey plays
      in buildWeights rest weights2)"

definition historyWeightsOf :: "(string \<times> jsval) list \<Rightarrow> (string \<rightharpoonup> jsnum)" where
  "historyWeightsOf perSong = buildWeights perSong Map.empty"

section \<open>Properties\<close>

text \<open>
  C1. \<open>tierFromPlaycount\<close> returns null on a non-finite number; on a finite number it
  returns Promo up to 1, Light above 1 up to 7, Medium above 7 up to 15, Heavy above 15
  up to 29 and Power above 29. At 1, 2, 7, 8, 15, 16, 29, 30 it yields Promo, Light,
  Light, Medium, Medium, Heavy, Heavy, Power. Being a function of its argument alone,
  two calls on the same input agree.
\<close>

theorem tierFromPlaycount_bands:
  "(\<not> isFinite n \<longrightarrow> tierFromPlaycount n = None) \<and>
   (n = Fin x \<and> x \<le> 1 \<longrightarrow> tierFromPlaycount n = Some Promo) \<and>
   (n = Fin x \<and> 1 < x \<and> x \<le> 7 \<longrightarrow> tierFromPlaycount n = Some Light) \<and>
   (n = Fin x \<and> 7 < x \<and> x \<le> 15 \<longrightarrow> tierFromPlaycount n = Some Medium) \<and>
   (n = Fin x \<and> 15 < x \<and> x \<le> 29 \<longrightarrow> tierFromPlaycount n = Some Heavy) \<and>
   (n = Fin x \<and> 29 < x \<longrightarrow> tierFromPlaycount n = Some Power) \<and>
   map tierFromPlaycount [Fin 1, Fin 2, Fin 7, Fin 8, Fin 15, Fin 16, Fin 29, Fin 30] =
     map Some [Promo, Light, Light, Medium, Medium, Heavy, Heavy, Power] \<and>
   (n = m \<longrightarrow> tierFromPlaycount n = tierFromPlaycount m)"
  by (cases n) (auto simp: tierFromPlaycount_def)

theorem tierFromPlaycount_bands_witness:
  "isFinite (Fin 8) \<and> (7::rat) < 8 \<and> (8::rat) \<le> 15 \<and> tierFromPlaycount (Fin 8) = Some Medium
   \<and> \<not> isFinite PosInf \<and> tierFromPlaycount PosInf = None"
  using tierFromPlaycount_bands [of "Fin 8" 8 "Fin 8"] tierFromPlaycount_bands [of PosInf 0 PosInf]
  by simp

subsection \<open>Facts about the helpers\<close>

lemma indexOf_None_iff: "indexOf s m = None \<longleftrightarrow> \<not> sublist m s"
  by (induction s) (auto simp: sublist_Cons_right)

lemma indexOf_SomeD:
  "indexOf s m = Some i \<Longrightarrow> s = take i s @ m @ drop (i + length m) s"
proof (induction s arbitrary: i)
  case Nil
  then show ?case by (auto split: if_splits)
next
  case (Cons c cs)
  show ?case
  proof (cases "prefix m (c # cs)")
    case True
    with Cons.prems have "i = 0" by simp
    moreover from True obtain r where "c # cs = m @ r" by (auto simp: prefix_def)
    ultimately show ?thesis by (metis append_Nil append_eq_conv_conj add_0 take_0)
  next
    case False
    with Cons.prems obtain j where j: "indexOf cs m = Some j" "i = Suc j" by auto
    from Cons.IH [OF j(1)] show ?thesis using j(2) by simp
  qed
qed

lemma indexOf_first:
  "indexOf s m = Some i \<Longrightarrow> m \<noteq> [] \<Longrightarrow> \<not> sublist m (take i s @ butlast m)"
proof (induction s arbitrary: i)
  case Nil
  then show ?case by (auto split: if_splits)
next
  case (Cons c cs)
  show ?case
  proof (cases "prefix m (c # cs)")
    case True
    with Cons.prems have "i = 0" by simp
    moreover have "\<not> sublist m (butlast m)"
    proof
      assume "sublist m (butlast m)"
      then have "length m \<le> length (butlast m)" by (rule sublist_length_le)
      then have "m = []" by (cases m) (simp_all del: butlast.simps)
      with Cons.prems(2) show False by simp
    qed
    ultimately show ?thesis by simp
  next
    case False
    with Cons.prems obtain j where j: "indexOf cs m = Some j" "i = Suc j" by auto
    have ih: "\<not> sublist m (take j cs @ butlast m)" by (rule Cons.IH [OF j(1) Cons.prems(2)])
    have cs: "cs = take j cs @ m @ drop (j + length m) cs" by (rule indexOf_SomeD [OF j(1)])
    have "\<not> prefix m (c # take j cs @ butlast m)"
    proof
      assume p: "prefix m (c # take j cs @ butlast m)"
      have "prefix (butlast m) (m @ drop (j + length m) cs)"
        by (metis prefix_def append_butlast_last_id Cons.prems(2) append.assoc)
      then have "prefix (c # take j cs @ butlast m) (c # take j cs @ m @ drop (j + length m) cs)"
        by simp
      with cs have "prefix (c # take j cs @ butlast m) (c # cs)" by simp
      with p have "prefix m (c # cs)" by (rule prefix_order.trans)
      with False show False by simp
    qed
    with ih show ?thesis using j(2) by (simp add: sublist_Cons_right)
  qed
qed

lemma indexOf_le: "indexOf s m = Some i \<Longrightarrow> i + length m \<le> length s"
proof (induction s arbitrary: i)
  case Nil
  then show ?case by (auto split: if_splits)
next
  case (Cons c cs)
  show ?case
  proof (cases "prefix m (c # cs)")
    case True
    with Cons.prems have "i = 0" by simp
    with prefix_length_le [OF True] show ?thesis by simp
  next
    case False
    with Cons.prems obtain j where j: "indexOf cs m = Some j" "i = Suc j" by auto
    from Cons.IH [OF j(1)] show ?thesis using j(2) by simp
  qed
qed

lemma normalizeVideoPath_None:
  "\<not> sublist ''/VIDEO/'' p \<Longrightarrow> normalizeVideoPath p = \<lparr>relativePath = None, absolutePath = None\<rparr>"
  using indexOf_None_iff [of p "''/VIDEO/''"] by (simp add: normalizeVideoPath_def)

lemma slashify_append: "slashify (a @ b) = slashify a @ slashify b"
  by (simp add: slashify_def)

lemma normalizeVideoPath_Some:
  assumes "relativePath (normalizeVideoPath p) = Some rel"
  shows "\<exists>pre suf. p = pre @ ''/VIDEO/'' @ suf \<and> rel = ''VIDEO/'' @ slashify suf
           \<and> \<not> sublist ''/VIDEO/'' (pre @ ''/VIDEO'')"
proof -
  from assms obtain i where i: "indexOf p ''/VIDEO/'' = Some i" and rel: "rel = slashify (drop (i + 1) p)"
    by (auto simp: normalizeVideoPath_def Let_def split: if_splits option.splits)
  let ?pre = "take i p" and ?suf = "drop (i + length ''/VIDEO/'') p"
  have p: "p = ?pre @ ''/VIDEO/'' @ ?suf" by (rule indexOf_SomeD [OF i])
  have len: "length ?pre = i" using indexOf_le [OF i] by simp
  have "drop (i + 1) p = drop (i + 1) (?pre @ ''/VIDEO/'' @ ?suf)" using p by simp
  also have "\<dots> = ''VIDEO/'' @ ?suf" using len by simp
  finally have "rel = ''VIDEO/'' @ slashify ?suf"
    using rel by (simp add: slashify_def backslash_def)
  moreover have "\<not> sublist ''/VIDEO/'' (?pre @ ''/VIDEO'')"
    using indexOf_first [OF i] by simp
  ultimately show ?thesis using p by blast
qed

lemma mkRow_sel [simp]:
  "id' (mkRow E item rel a rid) = rid"
  "filePath (mkRow E item rel a rid) = rel"
  "absPath (mkRow E item rel a rid) = a"
  "playcount (mkRow E item rel a rid) = resolvePlaycount E item"
  "tier (mkRow E item rel a rid) =
     (case tierFromPlaycount (Fin (of_int (resolvePlaycount E item))) of
        Some t \<Rightarrow> Some t | None \<Rightarrow> normalizeCanonicalTier (getField item ''tier''))"
  "retentionBreakdown (mkRow E item rel a rid) =
     toRetentionBreakdown E (nullish (getField item ''retentionBreakdown'') (getField item ''retention_breakdown''))"
  by (simp_all add: mkRow_def Let_def)

lemma parseRow_None:
  "\<not> sublist ''/VIDEO/'' (rawPathOf E item) \<Longrightarrow> parseRow E ids idx item = (ids, None)"
  by (simp add: parseRow_def Let_def normalizeVideoPath_None)

lemma parseRow_Some:
  assumes "parseRow E ids idx item = (ids', Some row)"
  shows "\<exists>rel a rid. row = mkRow E item rel a rid
           \<and> relativePath (normalizeVideoPath (rawPathOf E item)) = Some rel"
  using assms by (auto simp: parseRow_def Let_def split: if_splits option.splits)

lemma idBaseOf_idx: "rel \<noteq> [] \<Longrightarrow> idBaseOf E item rel idx = idBaseOf E item rel idx'"
  by (simp add: idBaseOf_def orElse_def)

lemma parseRow_idx: "parseRow E ids idx item = parseRow E ids idx' item"
  by (auto simp: parseRow_def Let_def idBaseOf_idx [of _ E item idx idx'] split: option.splits)

lemma rowsFrom_idx: "rowsFrom E ids idx items = rowsFrom E ids idx' items"
proof (induction items arbitrary: ids idx idx')
  case Nil
  show ?case by simp
next
  case (Cons item rest)
  have "parseRow E ids idx item = parseRow E ids idx' item" by (rule parseRow_idx)
  moreover have "\<And>ids'. rowsFrom E ids' (Suc idx) rest = rowsFrom E ids' (Suc idx') rest"
    by (rule Cons.IH)
  ultimately show ?case by (simp split: prod.splits option.splits)
qed

lemma rowsFrom_drop:
  assumes "\<not> sublist ''/VIDEO/'' (rawPathOf E item)"
  shows "rowsFrom E ids idx (xs @ item # ys) = rowsFrom E ids idx (xs @ ys)"
proof (induction xs arbitrary: ids idx)
  case Nil
  have "rowsFrom E ids idx (item # ys) = rowsFrom E ids (Suc idx) ys"
    by (simp add: parseRow_None [OF assms])
  also have "\<dots> = rowsFrom E ids idx ys" by (rule rowsFrom_idx)
  finally show ?case by simp
next
  case (Cons x xs)
  then show ?case by (simp split: prod.splits option.splits)
qed

lemma rowsFrom_mem:
  "row \<in> set (rowsFrom E ids idx items) \<Longrightarrow>
     \<exists>item \<in> set items. \<exists>ids0 idx0 ids1. parseRow E ids0 idx0 item = (ids1, Some row)"
proof (induction items arbitrary: ids idx)
  case Nil
  then show ?case by simp
next
  case (Cons item rest)
  obtain ids' r where pr: "parseRow E ids idx item = (ids', r)" by (cases "parseRow E ids idx item")
  show ?case
  proof (cases "r = Some row")
    case True
    with pr show ?thesis by auto
  next
    case False
    with Cons.prems pr have "row \<in> set (rowsFrom E ids' (Suc idx) rest)"
      by (auto split: option.splits)
    from Cons.IH [OF this] show ?thesis by auto
  qed
qed

lemma parsed_eq:
  "(case raw of Num n \<Rightarrow> if isFinite n then n else js_Number E raw | _ \<Rightarrow> js_Number E raw)
     = js_Number E raw"
  by (cases raw) auto

lemma fillBreakdown_eq:
  "fillBreakdown E row keys out =
     (if \<forall>k \<in> set keys. isFinite (js_Number E (getField row k))
      then Some (out @ map (\<lambda>k. (k, js_Number E (getField row k))) keys) else None)"
  by (induction keys arbitrary: out) (simp_all add: Let_def parsed_eq)

lemma breakdownKeys_nonempty: "''freshnessCurve'' \<in> set breakdownKeys"
  by (simp add: breakdownKeys_def)

lemma toRetentionBreakdown_eq:
  "toRetentionBreakdown E v =
     (if \<forall>k \<in> set breakdownKeys. isFinite (js_Number E (getProp v k))
      then Some (map (\<lambda>k. (k, js_Number E (getProp v k))) breakdownKeys) else None)"
proof (cases v)
  case (Obj row)
  then show ?thesis by (simp add: toRetentionBreakdown_def fillBreakdown_eq)
qed (use breakdownKeys_nonempty in \<open>auto simp: toRetentionBreakdown_def\<close>)

text \<open>
  C7. The normalized retention breakdown is all-or-nothing. Reading a sub-field of
  anything but an object gives \<open>undefined\<close>, as a missing sub-field does, and
  \<open>Number(undefined)\<close> is \<open>NaN\<close>. The result is null exactly when one of the nine named
  sub-fields does not coerce to a finite number, in particular when one is missing;
  when all nine do, it is the object with exactly those nine numbers, in the order of
  the keys. The record's \<open>retentionBreakdown\<close> is this result for
  \<open>item.retentionBreakdown ?? item.retention_breakdown\<close>.
\<close>

theorem retentionBreakdown_all_or_nothing:
  "(toRetentionBreakdown E v = None \<longleftrightarrow>
      (\<exists>k \<in> set breakdownKeys. \<not> isFinite (js_Number E (getProp v k)))) \<and>
   (k \<in> set breakdownKeys \<and> getProp v k = Undefined \<longrightarrow> toRetentionBreakdown E v = None) \<and>
   ((\<forall>k \<in> set breakdownKeys. isFinite (js_Number E (getProp v k))) \<longrightarrow>
      toRetentionBreakdown E v = Some (map (\<lambda>k. (k, js_Number E (getProp v k))) breakdownKeys)) \<and>
   length breakdownKeys = 9 \<and> distinct breakdownKeys \<and>
   (parseRow E ids idx item = (ids', Some row) \<longrightarrow>
      retentionBreakdown row = toRetentionBreakdown E
        (nullish (getField item ''retentionBreakdown'') (getField item ''retention_breakdown'')))"
proof (intro conjI impI)
  show "toRetentionBreakdown E v = None \<longleftrightarrow>
      (\<exists>k \<in> set breakdownKeys. \<not> isFinite (js_Number E (getProp v k)))"
    by (simp add: toRetentionBreakdown_eq)
  show "toRetentionBreakdown E v = None" if "k \<in> set breakdownKeys \<and> getProp v k = Undefined"
  proof -
    from that have "\<not> isFinite (js_Number E (getProp v k))" by simp
    with that have "\<not> (\<forall>k \<in> set breakdownKeys. isFinite (js_Number E (getProp v k)))" by blast
    then show ?thesis by (simp only: toRetentionBreakdown_eq if_False)
  qed
  show "toRetentionBreakdown E v = Some (map (\<lambda>k. (k, js_Number E (getProp v k))) breakdownKeys)"
    if "\<forall>k \<in> set breakdownKeys. isFinite (js_Number E (getProp v k))"
    using that by (simp add: toRetentionBreakdown_eq)
  show "length breakdownKeys = 9" by (simp add: breakdownKeys_def)
  show "distinct breakdownKeys" by (simp add: breakdownKeys_def)
  show "retentionBreakdown row = toRetentionBreakdown E
        (nullish (getField item ''retentionBreakdown'') (getField item ''retention_breakdown''))"
    if "parseRow E ids idx item = (ids', Some row)"
    using parseRow_Some [OF that] by auto
qed

theorem retentionBreakdown_all_or_nothing_witness:
  "toRetentionBreakdown decimalEnv
     (Obj [(''xmlLifetimePlaycount'', Num (Fin 1)), (''historicalPlays'', Num (Fin 2)),
           (''eventDiversity'', Num (Fin 3)), (''bpmTransitionUtility'', Num (Fin 4)),
           (''genreCoverageUniqueness'', Num (Fin 5)), (''artistPresenceNetwork'', Str ''6''),
           (''eraRelevance'', Num (Fin 7)), (''metadataCompleteness'', Null),
           (''freshnessCurve'', Num (Fin 9))])
     = Some [(''xmlLifetimePlaycount'', Fin 1), (''historicalPlays'', Fin 2),
             (''eventDiversity'', Fin 3), (''bpmTransitionUtility'', Fin 4),
             (''genreCoverageUniqueness'', Fin 5), (''artistPresenceNetwork'', Fin 6),
             (''eraRelevance'', Fin 7), (''metadataCompleteness'', Fin 0),
             (''freshnessCurve'', Fin 9)] \<and>
   ''freshnessCurve'' \<in> set breakdownKeys \<and>
   toRetentionBreakdown decimalEnv
     (Obj [(''xmlLifetimePlaycount'', Num (Fin 1)), (''historicalPlays'', Num (Fin 2)),
           (''eventDiversity'', Num (Fin 3)), (''bpmTransitionUtility'', Num (Fin 4)),
           (''genreCoverageUniqueness'', Num (Fin 5)), (''artistPresenceNetwork'', Num (Fin 6)),
           (''eraRelevance'', Num (Fin 7)), (''metadataCompleteness'', Num (Fin 8))]) = None \<and>
   (\<exists>row. snd (parseRow decimalEnv Map.empty 0
            [(''filePath'', Str ''/VIDEO/a.mp4''), (''retentionBreakdown'', Num (Fin 3))]) = Some row
          \<and> retentionBreakdown row = None)"
proof -
  let ?full = "Obj [(''xmlLifetimePlaycount'', Num (Fin 1)), (''historicalPlays'', Num (Fin 2)),
           (''eventDiversity'', Num (Fin 3)), (''bpmTransitionUtility'', Num (Fin 4)),
           (''genreCoverageUniqueness'', Num (Fin 5)), (''artistPresenceNetwork'', Str ''6''),
           (''eraRelevance'', Num (Fin 7)), (''metadataCompleteness'', Null),
           (''freshnessCurve'', Num (Fin 9))]"
  let ?part = "Obj [(''xmlLifetimePlaycount'', Num (Fin 1)), (''historicalPlays'', Num (Fin 2)),
           (''eventDiversity'', Num (Fin 3)), (''bpmTransitionUtility'', Num (Fin 4)),
           (''genreCoverageUniqueness'', Num (Fin 5)), (''artistPresenceNetwork'', Num (Fin 6)),
           (''eraRelevance'', Num (Fin 7)), (''metadataCompleteness'', Num (Fin 8))]"
  let ?item = "[(''filePath'', Str ''/VIDEO/a.mp4''), (''retentionBreakdown'', Num (Fin 3))]"
  have all: "\<forall>k \<in> set breakdownKeys. isFinite (js_Number decimalEnv (getProp ?full k))"
    by code_simp
  have vals: "map (\<lambda>k. (k, js_Number decimalEnv (getProp ?full k))) breakdownKeys
     = [(''xmlLifetimePlaycount'', Fin 1), (''historicalPlays'', Fin 2),
             (''eventDiversity'', Fin 3), (''bpmTransitionUtility'', Fin 4),
             (''genreCoverageUniqueness'', Fin 5), (''artistPresenceNetwork'', Fin 6),
             (''eraRelevance'', Fin 7), (''metadataCompleteness'', Fin 0),
             (''freshnessCurve'', Fin 9)]"
    by code_simp
  have key: "''freshnessCurve'' \<in> set breakdownKeys" by code_simp
  have missing: "getProp ?part ''freshnessCurve'' = Undefined" by code_simp
  obtain ids' row where pr: "parseRow decimalEnv Map.empty 0 ?item = (ids', Some row)"
  proof -
    have "snd (parseRow decimalEnv Map.empty 0 ?item) \<noteq> None" by code_simp
    then show ?thesis using that by (cases "parseRow decimalEnv Map.empty 0 ?item") auto
  qed
  have nb: "toRetentionBreakdown decimalEnv
        (nullish (getField ?item ''retentionBreakdown'') (getField ?item ''retention_breakdown'')) = None"
    by code_simp
  from retentionBreakdown_all_or_nothing [of decimalEnv ?full] all vals
  have "toRetentionBreakdown decimalEnv ?full
     = Some [(''xmlLifetimePlaycount'', Fin 1), (''historicalPlays'', Fin 2),
             (''eventDiversity'', Fin 3), (''bpmTransitionUtility'', Fin 4),
             (''genreCoverageUniqueness'', Fin 5), (''artistPresenceNetwork'', Fin 6),
             (''eraRelevance'', Fin 7), (''metadataCompleteness'', Fin 0),
             (''freshnessCurve'', Fin 9)]" by simp
  moreover from retentionBreakdown_all_or_nothing [of decimalEnv ?part "''freshnessCurve''"] key missing
  have "toRetentionBreakdown decimalEnv ?part = None" by blast
  moreover from retentionBreakdown_all_or_nothing [of decimalEnv _ _ Map.empty 0 ?item ids' row] pr nb
  have "retentionBreakdown row = None" by simp
  ultimately show ?thesis using key pr by simp
qed

lemma lower_names:
  "toLowerCase (tierName Promo) = ''promo''" "toLowerCase (tierName Light) = ''light''"
  "toLowerCase (tierName Medium) = ''medium''" "toLowerCase (tierName Heavy) = ''heavy''"
  "toLowerCase (tierName Power) = ''power''"
  by (simp_all add: tierName_def toLowerCase_def toLowerChar_def)

lemma normalizeCanonicalTier_Str:
  "normalizeCanonicalTier (Str s) = Some t \<longleftrightarrow> toLowerCase (trim s) = toLowerCase (tierName t)"
  by (cases t) (simp_all add: normalizeCanonicalTier_def Let_def lower_names)

lemma tier_never_null:
  assumes "parseRow E ids idx item = (ids', Some row)"
  shows "tier row = tierFromPlaycount (Fin (of_int (resolvePlaycount E item))) \<and> tier row \<noteq> None"
  using parseRow_Some [OF assms] by (auto simp: tierFromPlaycount_def)

lemma tier_row:
  assumes "parseRow E ids idx item = (ids', Some row)"
  shows "tier row = (case tierFromPlaycount (Fin (of_int (playcount row))) of
                       Some t \<Rightarrow> Some t
                     | None \<Rightarrow> normalizeCanonicalTier (getField item ''tier''))"
  using parseRow_Some [OF assms] by auto

text \<open>
  C2. The record's tier is the tier derived from its resolved playcount whenever that
  derivation gives one, and the canonicalized upstream \<open>tier\<close> field only when the
  derivation gives null. Canonicalization trims the upstream string and lower-cases it:
  the result is a tier exactly when the trimmed, lower-cased string is that tier's name,
  and null for every other string; there is no default tier.
\<close>

theorem tier_derived_then_fallback:
  "(parseRow E ids idx item = (ids', Some row) \<longrightarrow>
      playcount row = resolvePlaycount E item \<and>
      tier row = (case tierFromPlaycount (Fin (of_int (playcount row))) of
                    Some t \<Rightarrow> Some t
                  | None \<Rightarrow> normalizeCanonicalTier (getField item ''tier''))) \<and>
   (r \<in> set (parseVideoIndexRows E items) \<longrightarrow>
      (\<exists>item \<in> set items.
         playcount r = resolvePlaycount E item \<and>
         tier r = (case tierFromPlaycount (Fin (of_int (playcount r))) of
                     Some t \<Rightarrow> Some t
                   | None \<Rightarrow> normalizeCanonicalTier (getField item ''tier'')))) \<and>
   (normalizeCanonicalTier (Str s) = Some t \<longleftrightarrow>
      toLowerCase (trim s) = toLowerCase (tierName t)) \<and>
   (toLowerCase (trim s) \<notin> set (map (\<lambda>t. toLowerCase (tierName t)) [Promo, Light, Medium, Heavy, Power])
      \<longrightarrow> normalizeCanonicalTier (Str s) = None)"
proof (intro conjI impI)
  show "playcount row = resolvePlaycount E item"
    if "parseRow E ids idx item = (ids', Some row)"
    using parseRow_Some [OF that] by auto
  show "tier row = (case tierFromPlaycount (Fin (of_int (playcount row))) of
                    Some t \<Rightarrow> Some t
                  | None \<Rightarrow> normalizeCanonicalTier (getField item ''tier''))"
    if "parseRow E ids idx item = (ids', Some row)"
    using that by (rule tier_row)
  show "\<exists>item \<in> set items.
         playcount r = resolvePlaycount E item \<and>
         tier r = (case tierFromPlaycount (Fin (of_int (playcount r))) of
                     Some t \<Rightarrow> Some t
                   | None \<Rightarrow> normalizeCanonicalTier (getField item ''tier''))"
    if "r \<in> set (parseVideoIndexRows E items)"
  proof -
    from that have "r \<in> set (rowsFrom E Map.empty 0 items)"
      by (simp add: parseVideoIndexRows_def)
    from rowsFrom_mem [OF this] obtain item ids0 idx0 ids1 where it: "item \<in> set items"
      and pr: "parseRow E ids0 idx0 item = (ids1, Some r)" by blast
    have p1: "playcount r = resolvePlaycount E item" using parseRow_Some [OF pr] by auto
    from p1 tier_row [OF pr] have "playcount r = resolvePlaycount E item \<and>
         tier r = (case tierFromPlaycount (Fin (of_int (playcount r))) of
                     Some t \<Rightarrow> Some t
                   | None \<Rightarrow> normalizeCanonicalTier (getField item ''tier''))" by (intro conjI)
    with it show ?thesis by (rule rev_bexI)
  qed
  show "normalizeCanonicalTier (Str s) = Some t \<longleftrightarrow>
      toLowerCase (trim s) = toLowerCase (tierName t)"
    by (rule normalizeCanonicalTier_Str)
  show "normalizeCanonicalTier (Str s) = None"
    if "toLowerCase (trim s) \<notin> set (map (\<lambda>t. toLowerCase (tierName t)) [Promo, Light, Medium, Heavy, Power])"
  proof (cases "normalizeCanonicalTier (Str s)")
    case None
    then show ?thesis .
  next
    case (Some t')
    then have "toLowerCase (trim s) = toLowerCase (tierName t')" by (simp add: normalizeCanonicalTier_Str)
    with that show ?thesis by (cases t') (simp_all add: lower_names)
  qed
qed

theorem tier_derived_then_fallback_witness:
  "snd (parseRow decimalEnv Map.empty 0
     [(''filePath'', Str ''/VIDEO/a.mp4''), (''playcount'', Num (Fin 12)), (''tier'', Str ''Power'')])
     = Some (hd (parseVideoIndexRows decimalEnv
          [[(''filePath'', Str ''/VIDEO/a.mp4''), (''playcount'', Num (Fin 12)), (''tier'', Str ''Power'')]])) \<and>
   hd (parseVideoIndexRows decimalEnv
          [[(''filePath'', Str ''/VIDEO/a.mp4''), (''playcount'', Num (Fin 12)), (''tier'', Str ''Power'')]])
     \<in> set (parseVideoIndexRows decimalEnv
          [[(''filePath'', Str ''/VIDEO/a.mp4''), (''playcount'', Num (Fin 12)), (''tier'', Str ''Power'')]]) \<and>
   tier (hd (parseVideoIndexRows decimalEnv
          [[(''filePath'', Str ''/VIDEO/a.mp4''), (''playcount'', Num (Fin 12)), (''tier'', Str ''Power'')]]))
     = Some Medium \<and>
   normalizeCanonicalTier (Str '' LIGHT '') = Some Light \<and>
   toLowerCase (trim ''bogus'') \<notin> set (map (\<lambda>t. toLowerCase (tierName t)) [Promo, Light, Medium, Heavy, Power]) \<and>
   normalizeCanonicalTier (Str ''bogus'') = None"
proof -
  let ?item = "[(''filePath'', Str ''/VIDEO/a.mp4''), (''playcount'', Num (Fin 12)), (''tier'', Str ''Power'')]"
  let ?row = "hd (parseVideoIndexRows decimalEnv [?item])"
  have s: "snd (parseRow decimalEnv Map.empty 0 ?item) = Some ?row" by code_simp
  then have p: "parseRow decimalEnv Map.empty 0 ?item
                  = (fst (parseRow decimalEnv Map.empty 0 ?item), Some ?row)"
    by (metis prod.collapse)
  have m: "?row \<in> set (parseVideoIndexRows decimalEnv [?item])" by code_simp
  have pc: "resolvePlaycount decimalEnv ?item = 12" by code_simp
  have l: "toLowerCase (trim '' LIGHT '') = toLowerCase (tierName Light)" by code_simp
  have b: "toLowerCase (trim ''bogus'') \<notin> set (map (\<lambda>t. toLowerCase (tierName t)) [Promo, Light, Medium, Heavy, Power])"
    by code_simp
  from tier_derived_then_fallback
    [of decimalEnv Map.empty 0 ?item "fst (parseRow decimalEnv Map.empty 0 ?item)" ?row ?row
        "[?item]" "'' LIGHT ''" Light] p pc l
  have "tier ?row = Some Medium" "normalizeCanonicalTier (Str '' LIGHT '') = Some Light"
    by (simp_all add: tierFromPlaycount_def)
  moreover from tier_derived_then_fallback [where s = "''bogus''"] b
  have "normalizeCanonicalTier (Str ''bogus'') = None" by blast
  ultimately show ?thesis using s m b by simp
qed

text \<open>
  The claim as first stated, without the trimming, fails: \<open>" Promo"\<close> is none of the
  five names in any letter case, yet it canonicalizes to Promo.
\<close>

theorem tier_untrimmed_counterexample:
  "toLowerCase '' Promo'' \<noteq> toLowerCase (tierName Promo) \<and>
   toLowerCase '' Promo'' \<noteq> toLowerCase (tierName Light) \<and>
   toLowerCase '' Promo'' \<noteq> toLowerCase (tierName Medium) \<and>
   toLowerCase '' Promo'' \<noteq> toLowerCase (tierName Heavy) \<and>
   toLowerCase '' Promo'' \<noteq> toLowerCase (tierName Power) \<and>
   normalizeCanonicalTier (Str '' Promo'') = Some Promo"
  by code_simp

text \<open>
  C3. The ids of one normalization pass are not always distinct. The second item with
  id base \<open>x\<close> is given the id \<open>x#1\<close>; a later item whose own id base is \<open>x#1\<close> is
  seen for the first time and keeps it unchanged, so two records share the id \<open>x#1\<close>.
\<close>

theorem ids_collide:
  "map id' (parseVideoIndexRows E
     [[(''filePath'', Str ''/VIDEO/a.mp4''), (''videoId'', Str ''x'')],
      [(''filePath'', Str ''/VIDEO/b.mp4''), (''videoId'', Str ''x'')],
      [(''filePath'', Str ''/VIDEO/c.mp4''), (''videoId'', Str ''x#1'')]])
     = [''x'', ''x#1'', ''x#1''] \<and>
   \<not> distinct (map id' (parseVideoIndexRows E
     [[(''filePath'', Str ''/VIDEO/a.mp4''), (''videoId'', Str ''x'')],
      [(''filePath'', Str ''/VIDEO/b.mp4''), (''videoId'', Str ''x'')],
      [(''filePath'', Str ''/VIDEO/c.mp4''), (''videoId'', Str ''x#1'')]]))"
  by (simp add: parseVideoIndexRows_def parseRow_def rawPathOf_def idBaseOf_def asString_def
        nullish_def getField_def trim_def isSpace_def code_def normalizeVideoPath_def slashify_def
        backslash_def orElse_def Let_def decimal.simps)

subsection \<open>Facts about the sampler\<close>

lemma splice1_length: "s < length xs \<Longrightarrow> length (splice1 s xs) = length xs - 1"
  by (simp add: splice1_def)

lemma splice1_map: "splice1 s (map f xs) = map f (splice1 s xs)"
  by (simp add: splice1_def take_map drop_map)

lemma splice1_set: "s < length xs \<Longrightarrow> set xs = insert (xs ! s) (set (splice1 s xs))"
proof -
  assume s: "s < length xs"
  then have "xs = take s xs @ xs ! s # drop (Suc s) xs" by (rule id_take_nth_drop)
  then have "set xs = set (take s xs @ xs ! s # drop (Suc s) xs)" by simp
  then show ?thesis by (simp add: splice1_def)
qed

lemma splice1_distinct:
  assumes "s < length xs" "distinct xs"
  shows "distinct (splice1 s xs) \<and> xs ! s \<notin> set (splice1 s xs)"
proof -
  from assms(1) have "xs = take s xs @ xs ! s # drop (Suc s) xs" by (rule id_take_nth_drop)
  with assms(2) have "distinct (take s xs @ xs ! s # drop (Suc s) xs)" by simp
  then show ?thesis by (auto simp: splice1_def)
qed

lemma pickLoop_length:
  "length (pickLoop rnd k intensity hw c available picks) =
     (if int (length picks) < c then min (nat c) (length picks + length available)
      else length picks)"
proof (induction rnd k intensity hw c available picks rule: pickLoop.induct)
  case (1 rnd k intensity hw c available picks)
  show ?case
  proof (cases "available \<noteq> [] \<and> int (length picks) < c")
    case True
    let ?s = "selectIndex rnd k intensity hw available"
    have lt: "?s < length available" using True by (simp add: selectIndex_lt)
    have "length (pickLoop rnd k intensity hw c available picks) =
          length (pickLoop rnd (k + length available + 1) intensity hw c
                    (splice1 ?s available) (picks @ [available ! ?s]))"
      using True by (subst pickLoop.simps) (simp add: Let_def)
    also have "\<dots> = (if int (length (picks @ [available ! ?s])) < c
                     then min (nat c) (length (picks @ [available ! ?s]) + length (splice1 ?s available))
                     else length (picks @ [available ! ?s]))"
      using True by (intro "1.IH") auto
    also have "\<dots> = min (nat c) (length picks + length available)"
      using True lt by (auto simp: splice1_length)
    finally show ?thesis using True by simp
  next
    case False
    then show ?thesis by (subst pickLoop.simps) auto
  qed
qed

lemma pickLoop_positions:
  assumes "distinct (pp @ ap)"
  shows "\<exists>rp. distinct rp \<and> set rp \<subseteq> set (pp @ ap) \<and>
           pickLoop rnd k intensity hw c (map ((!) items) ap) (map ((!) items) pp) = map ((!) items) rp"
  using assms
proof (induction "length ap" arbitrary: ap pp k)
  case 0
  then show ?case by (subst pickLoop.simps) auto
next
  case (Suc n)
  let ?av = "map ((!) items) ap" and ?pk = "map ((!) items) pp"
  show ?case
  proof (cases "?av \<noteq> [] \<and> int (length ?pk) < c")
    case True
    let ?s = "selectIndex rnd k intensity hw ?av"
    have lt: "?s < length ap" using True selectIndex_lt [of ?av rnd k intensity hw] by simp
    let ?ap' = "splice1 ?s ap" and ?pp' = "pp @ [ap ! ?s]"
    have len: "n = length ?ap'" using lt Suc.hyps(2) by (simp add: splice1_length)
    have d: "distinct (?pp' @ ?ap')"
      using Suc.prems splice1_distinct [OF lt] splice1_set [OF lt] by auto
    from Suc.hyps(1) [OF len d, of "k + length ?av + 1"] obtain rp where rp: "distinct rp"
      "set rp \<subseteq> set (?pp' @ ?ap')"
      "pickLoop rnd (k + length ?av + 1) intensity hw c (map ((!) items) ?ap') (map ((!) items) ?pp')
         = map ((!) items) rp" by blast
    have "pickLoop rnd k intensity hw c ?av ?pk =
          pickLoop rnd (k + length ?av + 1) intensity hw c (splice1 ?s ?av) (?pk @ [?av ! ?s])"
      using True by (subst pickLoop.simps) (simp add: Let_def)
    also have "\<dots> = map ((!) items) rp"
      using rp(3) lt by (simp add: splice1_map)
    finally have "pickLoop rnd k intensity hw c ?av ?pk = map ((!) items) rp" .
    moreover have "set rp \<subseteq> set (pp @ ap)" using rp(2) splice1_set [OF lt] lt by auto
    ultimately show ?thesis using rp(1) by blast
  next
    case False
    then have "pickLoop rnd k intensity hw c ?av ?pk = ?pk" by (subst pickLoop.simps) auto
    moreover have "distinct pp" "set pp \<subseteq> set (pp @ ap)" using Suc.prems by auto
    ultimately show ?thesis by blast
  qed
qed

text \<open>
  C8. For every pool, count, intensity, map of history weights and sequence of random
  draws, the sampler returns as many records as the count asks for, or the whole pool
  when the count is larger; it returns nothing when the count is zero or negative or the
  pool is empty. The records are the pool's entries at pairwise distinct positions, so
  their ids are distinct whenever the pool's are.
\<close>

theorem weightedPick_count_distinct:
  "(0 \<le> c \<longrightarrow> int (length (weightedPick rnd items c intensity hw)) = min c (int (length items))) \<and>
   (c \<le> 0 \<or> items = [] \<longrightarrow> weightedPick rnd items c intensity hw = []) \<and>
   (\<exists>ps. distinct ps \<and> (\<forall>p \<in> set ps. p < length items) \<and>
         weightedPick rnd items c intensity hw = map ((!) items) ps) \<and>
   (distinct (map id' items) \<longrightarrow> distinct (map id' (weightedPick rnd items c intensity hw)))"
proof -
  let ?r = "weightedPick rnd items c intensity hw"
  have len: "length ?r = (if 0 < c then min (nat c) (length items) else 0)"
    by (simp add: weightedPick_def pickLoop_length)
  have "distinct ([] @ [0..<length items])" by simp
  from pickLoop_positions [OF this, of rnd 0 intensity hw c items]
  obtain ps where ps: "distinct ps" "set ps \<subseteq> {0..<length items}" "?r = map ((!) items) ps"
    by (auto simp: weightedPick_def map_nth)
  have pos: "\<forall>p \<in> set ps. p < length items" using ps(2) by auto
  have ids: "distinct (map id' ?r)" if d: "distinct (map id' items)"
  proof -
    have "inj_on (\<lambda>p. id' (items ! p)) (set ps)"
    proof (rule inj_onI)
      fix p q assume p: "p \<in> set ps" and q: "q \<in> set ps"
        and e: "id' (items ! p) = id' (items ! q)"
      from p q pos have lp: "p < length items" and lq: "q < length items" by auto
      have "map id' items ! p = map id' items ! q" using e lp lq by simp
      moreover have "p < length (map id' items)" "q < length (map id' items)"
        using lp lq by simp_all
      ultimately show "p = q" using nth_eq_iff_index_eq [OF d] by blast
    qed
    with ps(1) have "distinct (map (\<lambda>p. id' (items ! p)) ps)" by (simp add: distinct_map)
    then show ?thesis by (simp add: ps(3) comp_def)
  qed
  have e: "?r = []" if "c \<le> 0 \<or> items = []"
  proof -
    from that len have "length ?r = 0" by auto
    then show ?thesis by simp
  qed
  have l: "int (length ?r) = min c (int (length items))" if "0 \<le> c"
    using that len by auto
  from l e ps(1) pos ps(3) ids show ?thesis by blast
qed

theorem weightedPick_count_distinct_witness:
  "distinct (map id' (parseVideoIndexRows decimalEnv
      [[(''filePath'', Str ''/VIDEO/a.mp4'')], [(''filePath'', Str ''/VIDEO/b.mp4'')],
       [(''filePath'', Str ''/VIDEO/c.mp4'')]])) \<and>
   length (weightedPick (\<lambda>n. 1 / 2) (parseVideoIndexRows decimalEnv
      [[(''filePath'', Str ''/VIDEO/a.mp4'')], [(''filePath'', Str ''/VIDEO/b.mp4'')],
       [(''filePath'', Str ''/VIDEO/c.mp4'')]]) 2 (Fin 5) Map.empty) = 2 \<and>
   distinct (map id' (weightedPick (\<lambda>n. 1 / 2) (parseVideoIndexRows decimalEnv
      [[(''filePath'', Str ''/VIDEO/a.mp4'')], [(''filePath'', Str ''/VIDEO/b.mp4'')],
       [(''filePath'', Str ''/VIDEO/c.mp4'')]]) 2 (Fin 5) Map.empty)) \<and>
   weightedPick (\<lambda>n. 1 / 2) (parseVideoIndexRows decimalEnv
      [[(''filePath'', Str ''/VIDEO/a.mp4'')], [(''filePath'', Str ''/VIDEO/b.mp4'')],
       [(''filePath'', Str ''/VIDEO/c.mp4'')]]) 0 (Fin 5) Map.empty = []"
proof -
  let ?pool = "parseVideoIndexRows decimalEnv
      [[(''filePath'', Str ''/VIDEO/a.mp4'')], [(''filePath'', Str ''/VIDEO/b.mp4'')],
       [(''filePath'', Str ''/VIDEO/c.mp4'')]]"
  have d: "distinct (map id' ?pool)" by code_simp
  have n: "length ?pool = 3" by code_simp
  from weightedPick_count_distinct [of 2 "\<lambda>n. 1 / 2" ?pool "Fin 5" Map.empty] d n
  have "length (weightedPick (\<lambda>n. 1 / 2) ?pool 2 (Fin 5) Map.empty) = 2"
    "distinct (map id' (weightedPick (\<lambda>n. 1 / 2) ?pool 2 (Fin 5) Map.empty))" by simp_all
  moreover from weightedPick_count_distinct [of 0 "\<lambda>n. 1 / 2" ?pool "Fin 5" Map.empty]
  have "weightedPick (\<lambda>n. 1 / 2) ?pool 0 (Fin 5) Map.empty = []" by simp
  ultimately show ?thesis using d by simp
qed

subsection \<open>Facts about the history weights\<close>

lemma dom_bumpMax: "dom (bumpMax w k p) = insert k (dom w)"
  by (simp add: bumpMax_def)

lemma dom_buildWeights:
  "dom (buildWeights es w) =
     dom w \<union> fst ` set es \<union> {rel. \<exists>k \<in> fst ` set es. relKey k = Some rel}"
proof (induction es arbitrary: w)
  case Nil
  show ?case by simp
next
  case (Cons e es)
  obtain songKey stats where e: "e = (songKey, stats)" by (cases e)
  show ?case
  proof (cases "relKey songKey")
    case None
    then show ?thesis unfolding e by (auto simp: Cons.IH Let_def dom_bumpMax)
  next
    case (Some rel)
    then show ?thesis unfolding e by (auto simp: Cons.IH Let_def dom_bumpMax)
  qed
qed

lemma relKey_prefix: "relKey k = Some rel \<Longrightarrow> prefix ''/VIDEO/'' rel"
  by (auto simp: relKey_def Let_def slashify_def backslash_def split: option.splits)

lemma filePath_prefix:
  assumes "r \<in> set (parseVideoIndexRows E items)"
  shows "prefix ''VIDEO/'' (filePath r)"
proof -
  from assms have "r \<in> set (rowsFrom E Map.empty 0 items)" by (simp add: parseVideoIndexRows_def)
  from rowsFrom_mem [OF this] obtain item ids0 idx0 ids1
    where "parseRow E ids0 idx0 item = (ids1, Some r)" by blast
  from parseRow_Some [OF this] obtain rel a rid where r: "r = mkRow E item rel a rid"
    and rel: "relativePath (normalizeVideoPath (rawPathOf E item)) = Some rel" by blast
  from normalizeVideoPath_Some [OF rel] obtain suf where "rel = ''VIDEO/'' @ slashify suf" by blast
  with r show ?thesis by simp
qed

text \<open>
  C9. Every marker-relative key that the history aggregation derives begins with
  \<open>/VIDEO/\<close>, and the \<open>filePath\<close> of every normalized record begins with \<open>VIDEO/\<close>, without
  the slash. The keys of the aggregated map are the raw history keys and the derived
  ones, so a lookup by a record's \<open>filePath\<close> that finds an entry has found a raw history
  key equal to that \<open>filePath\<close>; no derived key ever equals it.
\<close>

theorem history_lookup_by_filePath:
  "(relKey k = Some rel \<longrightarrow> prefix ''/VIDEO/'' rel) \<and>
   (r \<in> set (parseVideoIndexRows E items) \<longrightarrow> prefix ''VIDEO/'' (filePath r)) \<and>
   dom (historyWeightsOf perSong) =
     fst ` set perSong \<union> {rel. \<exists>k \<in> fst ` set perSong. relKey k = Some rel} \<and>
   (r \<in> set (parseVideoIndexRows E items) \<and> historyWeightsOf perSong (filePath r) \<noteq> None
      \<longrightarrow> filePath r \<in> fst ` set perSong) \<and>
   (r \<in> set (parseVideoIndexRows E items) \<longrightarrow> relKey k \<noteq> Some (filePath r))"
proof -
  have dom: "dom (historyWeightsOf perSong) =
     fst ` set perSong \<union> {rel. \<exists>k \<in> fst ` set perSong. relKey k = Some rel}"
    by (simp add: historyWeightsOf_def dom_buildWeights)
  have ne: "relKey k' \<noteq> Some (filePath r)" if "r \<in> set (parseVideoIndexRows E items)" for k'
  proof
    assume "relKey k' = Some (filePath r)"
    then have "prefix ''/VIDEO/'' (filePath r)" by (rule relKey_prefix)
    moreover have "prefix ''VIDEO/'' (filePath r)" using that by (rule filePath_prefix)
    ultimately show False by (auto simp: prefix_def)
  qed
  have raw: "filePath r \<in> fst ` set perSong"
    if "r \<in> set (parseVideoIndexRows E items) \<and> historyWeightsOf perSong (filePath r) \<noteq> None"
  proof -
    from that have "filePath r \<in> dom (historyWeightsOf perSong)" by auto
    with dom ne [of _] that show ?thesis by auto
  qed
  from relKey_prefix filePath_prefix dom raw ne show ?thesis by blast
qed

theorem history_lookup_by_filePath_witness:
  "relKey (''D:'' @ [backslash] @ ''video'' @ [backslash] @ ''a.mp4'') = Some ''/VIDEO/a.mp4'' \<and>
   hd (parseVideoIndexRows decimalEnv [[(''filePath'', Str ''/m/VIDEO/a.mp4'')]])
     \<in> set (parseVideoIndexRows decimalEnv [[(''filePath'', Str ''/m/VIDEO/a.mp4'')]]) \<and>
   historyWeightsOf
     [(''VIDEO/a.mp4'', Obj [(''totalPlays'', Num (Fin 3))]),
      (''/m/VIDEO/a.mp4'', Obj [(''totalPlays'', Num (Fin 5))])]
     (filePath (hd (parseVideoIndexRows decimalEnv [[(''filePath'', Str ''/m/VIDEO/a.mp4'')]])))
     = Some (Fin 3) \<and>
   filePath (hd (parseVideoIndexRows decimalEnv [[(''filePath'', Str ''/m/VIDEO/a.mp4'')]]))
     \<in> fst ` set [(''VIDEO/a.mp4'', Obj [(''totalPlays'', Num (Fin 3))]),
                   (''/m/VIDEO/a.mp4'', Obj [(''totalPlays'', Num (Fin 5))])] \<and>
   prefix ''VIDEO/'' (filePath (hd (parseVideoIndexRows decimalEnv [[(''filePath'', Str ''/m/VIDEO/a.mp4'')]])))"
proof -
  let ?k = "''D:'' @ [backslash] @ ''video'' @ [backslash] @ ''a.mp4''"
  let ?rows = "parseVideoIndexRows decimalEnv [[(''filePath'', Str ''/m/VIDEO/a.mp4'')]]"
  let ?perSong = "[(''VIDEO/a.mp4'', Obj [(''totalPlays'', Num (Fin 3))]),
                   (''/m/VIDEO/a.mp4'', Obj [(''totalPlays'', Num (Fin 5))])]"
  have k: "relKey ?k = Some ''/VIDEO/a.mp4''" by code_simp
  have m: "hd ?rows \<in> set ?rows" by code_simp
  have h: "historyWeightsOf ?perSong (filePath (hd ?rows)) = Some (Fin 3)" by code_simp
  from history_lookup_by_filePath
         [of ?k "''/VIDEO/a.mp4''" "hd ?rows" decimalEnv
             "[[(''filePath'', Str ''/m/VIDEO/a.mp4'')]]" ?perSong] k m h
  have "filePath (hd ?rows) \<in> fst ` set ?perSong" "prefix ''VIDEO/'' (filePath (hd ?rows))"
    by simp_all
  with k m h show ?thesis by blast
qed

text \<open>
  C10. \<open>normalizeVideoPath\<close> looks for \<open>/VIDEO/\<close> in the path as given. A path that does not
  contain it, such as one whose separators are all backslashes, has no relative and no
  absolute path, and the record normalizer drops the item: the rows are those of the
  batch without it. When the marker is found, the relative path is \<open>VIDEO/\<close> followed by
  the text after the first marker with its backslashes turned into slashes; what stands
  before the marker is not converted, it is cut off.
\<close>

theorem backslash_marker_not_found:
  "(\<not> sublist ''/VIDEO/'' p \<longrightarrow>
      normalizeVideoPath p = \<lparr>relativePath = None, absolutePath = None\<rparr>) \<and>
   normalizeVideoPath
     (''C:'' @ [backslash] @ ''Media'' @ [backslash] @ ''VIDEO'' @ [backslash] @ ''clip.mp4'')
     = \<lparr>relativePath = None, absolutePath = None\<rparr> \<and>
   (\<not> sublist ''/VIDEO/'' (rawPathOf E item) \<longrightarrow>
      parseRow E ids idx item = (ids, None) \<and>
      parseVideoIndexRows E (xs @ item # ys) = parseVideoIndexRows E (xs @ ys)) \<and>
   (relativePath (normalizeVideoPath p) = Some rel \<longrightarrow>
      (\<exists>pre suf. p = pre @ ''/VIDEO/'' @ suf \<and> \<not> sublist ''/VIDEO/'' (pre @ ''/VIDEO'')
          \<and> rel = ''VIDEO/'' @ slashify suf))"
proof (intro conjI impI)
  show "normalizeVideoPath p = \<lparr>relativePath = None, absolutePath = None\<rparr>"
    if "\<not> sublist ''/VIDEO/'' p"
    using that by (rule normalizeVideoPath_None)
  show "normalizeVideoPath
     (''C:'' @ [backslash] @ ''Media'' @ [backslash] @ ''VIDEO'' @ [backslash] @ ''clip.mp4'')
     = \<lparr>relativePath = None, absolutePath = None\<rparr>"
    by code_simp
  show "parseRow E ids idx item = (ids, None)" if "\<not> sublist ''/VIDEO/'' (rawPathOf E item)"
    using that by (rule parseRow_None)
  show "parseVideoIndexRows E (xs @ item # ys) = parseVideoIndexRows E (xs @ ys)"
    if "\<not> sublist ''/VIDEO/'' (rawPathOf E item)"
    using that by (simp add: parseVideoIndexRows_def rowsFrom_drop)
  show "\<exists>pre suf. p = pre @ ''/VIDEO/'' @ suf \<and> \<not> sublist ''/VIDEO/'' (pre @ ''/VIDEO'')
          \<and> rel = ''VIDEO/'' @ slashify suf"
    if "relativePath (normalizeVideoPath p) = Some rel"
    using normalizeVideoPath_Some [OF that] by blast
qed

theorem backslash_marker_not_found_witness:
  "\<not> sublist ''/VIDEO/''
       (''C:'' @ [backslash] @ ''Media'' @ [backslash] @ ''VIDEO'' @ [backslash] @ ''clip.mp4'') \<and>
   parseVideoIndexRows decimalEnv
     [[(''filePath'', Str ''/m/VIDEO/a.mp4'')],
      [(''filePath'', Str (''C:'' @ [backslash] @ ''Media'' @ [backslash] @ ''VIDEO'' @ [backslash] @ ''clip.mp4''))]]
     = parseVideoIndexRows decimalEnv [[(''filePath'', Str ''/m/VIDEO/a.mp4'')]] \<and>
   relativePath (normalizeVideoPath (''D:'' @ [backslash] @ ''m/VIDEO/80s'' @ [backslash] @ ''a.mp4''))
     = Some ''VIDEO/80s/a.mp4'' \<and>
   (\<exists>pre suf. ''D:'' @ [backslash] @ ''m/VIDEO/80s'' @ [backslash] @ ''a.mp4'' = pre @ ''/VIDEO/'' @ suf
       \<and> ''VIDEO/80s/a.mp4'' = ''VIDEO/'' @ slashify suf)"
proof -
  let ?bad = "''C:'' @ [backslash] @ ''Media'' @ [backslash] @ ''VIDEO'' @ [backslash] @ ''clip.mp4''"
  let ?good = "[(''filePath'', Str ''/m/VIDEO/a.mp4'')]"
  let ?p = "''D:'' @ [backslash] @ ''m/VIDEO/80s'' @ [backslash] @ ''a.mp4''"
  have n: "\<not> sublist ''/VIDEO/'' ?bad" by code_simp
  have raw: "rawPathOf decimalEnv [(''filePath'', Str ?bad)] = ?bad" by code_simp
  have rel: "relativePath (normalizeVideoPath ?p) = Some ''VIDEO/80s/a.mp4''" by code_simp
  from backslash_marker_not_found
         [of ?bad decimalEnv "[(''filePath'', Str ?bad)]" Map.empty 0 "[?good]" "[]"] n raw
  have "parseVideoIndexRows decimalEnv [?good, [(''filePath'', Str ?bad)]]
          = parseVideoIndexRows decimalEnv [?good]" by simp
  moreover from backslash_marker_not_found [of ?p _ _ _ _ _ _ "''VIDEO/80s/a.mp4''"] rel
  have "\<exists>pre suf. ?p = pre @ ''/VIDEO/'' @ suf \<and> ''VIDEO/80s/a.mp4'' = ''VIDEO/'' @ slashify suf"
    by blast
  ultimately show ?thesis using n rel by blast
qed

text \<open>
  C4. The decade pill \<open>10s\<close> is not a ten-year band in the code: \<open>matchesDecade\<close> ends with
  \<open>return year >= 2010\<close>, so the year 2020 passes the pill, and the decade stage of the
  filter passes a record of 2020 when \<open>10s\<close> is the only active pill.
\<close>

theorem decade_10s_has_no_upper_bound:
  "matchesDecade (Some 2020) D10s \<and> decadeStage [D10s] (row\<lparr>year := Some 2020\<rparr>)"
  by (simp add: matchesDecade_def decadeStage_def)

text \<open>
  For the other five pills the band is exact, and a null year fails every pill.
\<close>

lemma matchesDecade_bands:
  "matchesDecade None pill = False"
  "matchesDecade (Some y) D60s \<longleftrightarrow> 1960 \<le> y \<and> y \<le> 1969"
  "matchesDecade (Some y) D70s \<longleftrightarrow> 1970 \<le> y \<and> y \<le> 1979"
  "matchesDecade (Some y) D80s \<longleftrightarrow> 1980 \<le> y \<and> y \<le> 1989"
  "matchesDecade (Some y) D90s \<longleftrightarrow> 1990 \<le> y \<and> y \<le> 1999"
  "matchesDecade (Some y) D00s \<longleftrightarrow> 2000 \<le> y \<and> y \<le> 2009"
  "matchesDecade (Some y) D10s \<longleftrightarrow> 2010 \<le> y"
  by (simp_all add: matchesDecade_def)

text \<open>
  C6. The text and year stage of the library filter passes a record exactly when every
  text token of the query is a prefix of some word of the record's searchable text, the
  record's year equals every exact year of the query, and the record's year lies within
  every range of the query, bounds included. A record without a year fails as soon as the
  query has a year or a range.
\<close>

theorem textYearStage_iff:
  "(textYearStage E query row \<longleftrightarrow>
      (\<forall>token \<in> set (textTokens query).
         \<exists>word \<in> set (tokenize (rowSearchText E row)). prefix token word) \<and>
      (\<forall>y \<in> set (yearValues query). year row = Some y) \<and>
      (\<forall>r \<in> set (yearRanges query).
         \<exists>y. year row = Some y \<and> rangeStart r \<le> y \<and> y \<le> rangeEnd r)) \<and>
   (year row = None \<and> (yearValues query \<noteq> [] \<or> yearRanges query \<noteq> [])
      \<longrightarrow> \<not> textYearStage E query row)"
proof (cases "year row")
  case None
  have "(\<forall>y \<in> set ys. False) \<longleftrightarrow> ys = []" for ys :: "int list" by (cases ys) auto
  moreover have "(\<forall>r \<in> set rs. False) \<longleftrightarrow> rs = []" for rs :: "YearRange list" by (cases rs) auto
  ultimately show ?thesis using None
    by (auto simp: textYearStage_def Let_def list_all_iff list_ex_iff)
next
  case (Some y)
  then show ?thesis
    by (auto simp: textYearStage_def Let_def list_all_iff list_ex_iff)
qed

theorem textYearStage_iff_witness:
  "textYearStage decimalEnv (parseSearch ''boh 1975 70-79'')
     (hd (parseVideoIndexRows decimalEnv
        [[(''filePath'', Str ''/m/VIDEO/Queen - Bohemian Rhapsody.mp4''), (''year'', Num (Fin 1975))]])) \<and>
   \<not> textYearStage decimalEnv (parseSearch ''hemian'')
     (hd (parseVideoIndexRows decimalEnv
        [[(''filePath'', Str ''/m/VIDEO/Queen - Bohemian Rhapsody.mp4''), (''year'', Num (Fin 1975))]])) \<and>
   \<not> textYearStage decimalEnv (parseSearch ''1975'')
     (hd (parseVideoIndexRows decimalEnv
        [[(''filePath'', Str ''/m/VIDEO/Queen - Bohemian Rhapsody.mp4'')]]))"
proof -
  let ?row = "hd (parseVideoIndexRows decimalEnv
        [[(''filePath'', Str ''/m/VIDEO/Queen - Bohemian Rhapsody.mp4''), (''year'', Num (Fin 1975))]])"
  let ?bare = "hd (parseVideoIndexRows decimalEnv
        [[(''filePath'', Str ''/m/VIDEO/Queen - Bohemian Rhapsody.mp4'')]])"
  let ?q = "parseSearch ''boh 1975 70-79''"
  have a: "(\<forall>token \<in> set (textTokens ?q).
         \<exists>word \<in> set (tokenize (rowSearchText decimalEnv ?row)). prefix token word) \<and>
      (\<forall>y \<in> set (yearValues ?q). year ?row = Some y) \<and>
      (\<forall>r \<in> set (yearRanges ?q).
         \<exists>y. year ?row = Some y \<and> rangeStart r \<le> y \<and> y \<le> rangeEnd r)"
  proof -
    have "year ?row = Some 1975" by code_simp
    moreover have "yearValues ?q = [1975]" by code_simp
    moreover have "yearRanges ?q = [\<lparr>rangeStart = 1970, rangeEnd = 1979\<rparr>]" by code_simp
    moreover have "\<forall>token \<in> set (textTokens ?q).
         \<exists>word \<in> set (tokenize (rowSearchText decimalEnv ?row)). prefix token word" by code_simp
    ultimately show ?thesis by simp
  qed
  have b: "\<not> (\<forall>token \<in> set (textTokens (parseSearch ''hemian'')).
         \<exists>word \<in> set (tokenize (rowSearchText decimalEnv ?row)). prefix token word)" by code_simp
  have c: "year ?bare = None" "yearValues (parseSearch ''1975'') \<noteq> []" by code_simp+
  from textYearStage_iff [of decimalEnv ?q ?row] a
  have "textYearStage decimalEnv ?q ?row" by blast
  moreover from textYearStage_iff [of decimalEnv "parseSearch ''hemian''" ?row] b
  have "\<not> textYearStage decimalEnv (parseSearch ''hemian'') ?row" by blast
  moreover from textYearStage_iff [of decimalEnv "parseSearch ''1975''" ?bare] c
  have "\<not> textYearStage decimalEnv (parseSearch ''1975'') ?bare" by blast
  ultimately show ?thesis by blast
qed

subsection \<open>Facts about the query parser\<close>

lemma hyphen_not_digit: "\<not> isDigit CHR ''-''"
  by (simp add: isDigit_def)

lemma parseYearToken_eq:
  "parseYearToken s =
     (if digits2to4 s
      then Some (if length s = 2 then 1900 + int (digitsValue s) else int (digitsValue s))
      else None)"
  by (simp add: parseYearToken_def)

lemma range_split:
  assumes "list_all isDigit a"
  shows "takeWhile isDigit (a @ ''-'' @ b) = a" "dropWhile isDigit (a @ ''-'' @ b) = ''-'' @ b"
  using assms by (simp_all add: list_all_iff hyphen_not_digit)

lemma parseYearRangeToken_shape:
  assumes "digits2to4 a" "digits2to4 b"
  shows "parseYearRangeToken (a @ ''-'' @ b) =
           (let left = (if length a = 2 then 1900 + int (digitsValue a) else int (digitsValue a));
                right = (if length a = 4 \<and> length b = 2 then (left div 100) * 100 + int (digitsValue b)
                         else if length b = 2 then 1900 + int (digitsValue b)
                         else int (digitsValue b))
            in Some \<lparr>rangeStart = min left right, rangeEnd = max left right\<rparr>)"
proof -
  from assms(1) have "list_all isDigit a" by (simp add: digits2to4_def)
  from range_split [OF this, of b] assms show ?thesis
    by (simp add: parseYearRangeToken_def parseYearToken_eq Let_def)
qed

lemma parseYearRangeToken_SomeD:
  assumes "parseYearRangeToken t = Some r"
  shows "\<exists>a b. t = a @ ''-'' @ b \<and> digits2to4 a \<and> digits2to4 b"
proof -
  let ?a = "takeWhile isDigit t"
  from assms obtain c b where r: "dropWhile isDigit t = c # b"
    by (cases "dropWhile isDigit t") (auto simp: parseYearRangeToken_def Let_def)
  with assms have c: "c = CHR ''-''" and d: "digits2to4 ?a" "digits2to4 b"
    by (auto simp: parseYearRangeToken_def Let_def split: if_splits)
  have "t = ?a @ dropWhile isDigit t" by simp
  with r c have "t = ?a @ ''-'' @ b" by simp
  with d show ?thesis by blast
qed

lemma digits_no_range: "list_all isDigit t \<Longrightarrow> parseYearRangeToken t = None"
proof -
  assume "list_all isDigit t"
  then have e: "dropWhile isDigit t = []" by (simp add: list_all_iff)
  show ?thesis unfolding parseYearRangeToken_def Let_def e by simp
qed

lemma range_ordered: "parseYearRangeToken t = Some r \<Longrightarrow> rangeStart r \<le> rangeEnd r"
  by (auto simp: parseYearRangeToken_def Let_def split: if_splits list.splits option.splits)

lemma classifyTokens_eq:
  "classifyTokens toks (tp, ys, rs) =
     (tp @ filter (\<lambda>t. parseYearRangeToken t = None \<and> \<not> (length t = 4 \<and> list_all isDigit t))
             (cleanedTokens toks),
      ys @ map (\<lambda>t. int (digitsValue t))
             (filter (\<lambda>t. length t = 4 \<and> list_all isDigit t) (cleanedTokens toks)),
      rs @ List.map_filter parseYearRangeToken (cleanedTokens toks))"
proof (induction toks arbitrary: tp ys rs)
  case Nil
  show ?case by (simp add: cleanedTokens_def List.map_filter_simps)
next
  case (Cons token rest)
  let ?c = "cleanToken token"
  have ct: "cleanedTokens (token # rest) = (if ?c = [] then cleanedTokens rest else ?c # cleanedTokens rest)"
    by (simp add: cleanedTokens_def)
  show ?case
  proof (cases "?c = []")
    case True
    then show ?thesis by (simp add: ct Cons.IH Let_def)
  next
    case ne: False
    show ?thesis
    proof (cases "parseYearRangeToken ?c")
      case (Some r)
      then have "\<not> list_all isDigit ?c" using digits_no_range by fastforce
      with Some ne show ?thesis by (simp add: ct Cons.IH List.map_filter_simps Let_def)
    next
      case None
      show ?thesis
      proof (cases "length ?c = 4 \<and> list_all isDigit ?c")
        case True
        then have "parseYearToken ?c = Some (int (digitsValue ?c))"
          by (simp add: parseYearToken_eq digits2to4_def)
        with None ne True show ?thesis by (simp add: ct Cons.IH List.map_filter_simps Let_def)
      next
        case False
        then have "parseYearToken ?c = None \<or> length ?c \<noteq> 4"
          by (auto simp: parseYearToken_eq digits2to4_def)
        with None ne False show ?thesis
          by (auto simp: ct Cons.IH List.map_filter_simps Let_def split: option.splits)
      qed
    qed
  qed
qed

lemma cleanToken_filter:
  "cleanToken tok = filter (\<lambda>c. c \<in> set ''0123456789abcdefghijklmnopqrstuvwxyz-'') tok"
proof -
  have "(isLowerAlnum c \<or> c = CHR ''-'') = (c \<in> set ''0123456789abcdefghijklmnopqrstuvwxyz-'')" for c
    by (auto simp: isLowerAlnum_def)
  then show ?thesis by (simp add: cleanToken_def)
qed

lemma splitWs_no_space: "w \<in> set (splitWs s) \<Longrightarrow> c \<in> set w \<Longrightarrow> \<not> isSpace c"
proof (induction s arbitrary: w rule: splitWs.induct)
  case (1 s)
  let ?w = "takeWhile (\<lambda>c. \<not> isSpace c) s" and ?r = "dropWhile (\<lambda>c. \<not> isSpace c) s"
  show ?case
  proof (cases "?r = []")
    case True
    with "1.prems" have "w = ?w" by (subst (asm) splitWs.simps) (auto simp: Let_def split: if_splits)
    with "1.prems"(2) show ?thesis by (auto dest: set_takeWhileD)
  next
    case False
    with "1.prems"(1) have "w = ?w \<or> w \<in> set (splitWs (dropWhile isSpace ?r))"
      by (subst (asm) splitWs.simps) (auto simp: Let_def split: if_splits)
    then show ?thesis
    proof
      assume "w = ?w"
      with "1.prems"(2) show ?thesis by (auto dest: set_takeWhileD)
    next
      assume "w \<in> set (splitWs (dropWhile isSpace ?r))"
      from "1.IH" [OF refl refl False this "1.prems"(2)] show ?thesis .
    qed
  qed
qed

lemma set_trim: "set (trim s) \<subseteq> set s"
proof -
  have "set (dropWhile isSpace (rev (dropWhile isSpace s))) \<subseteq> set (rev (dropWhile isSpace s))"
    by (auto dest: set_dropWhileD)
  also have "\<dots> \<subseteq> set s" by (auto dest: set_dropWhileD)
  finally show ?thesis by (simp add: trim_def)
qed

lemma rawTokens_no_space:
  assumes "tk \<in> set (rawTokens q)"
  shows "tk \<noteq> [] \<and> (\<forall>c \<in> set tk. \<not> isSpace c)"
proof -
  from assms obtain w where w: "w \<in> set (splitWs (toLowerCase (replaceDashes q)))"
    and tk: "tk = trim w" "tk \<noteq> []" by (auto simp: rawTokens_def)
  have "\<not> isSpace c" if "c \<in> set tk" for c
  proof -
    from that tk(1) set_trim [of w] have "c \<in> set w" by auto
    with w show ?thesis by (rule splitWs_no_space)
  qed
  with tk(2) show ?thesis by blast
qed

text \<open>
  C5. \<open>parseSearch\<close> classifies the tokens of the query in order, after splitting at
  white space and stripping every character outside \<open>[0-9a-z-]\<close>. A token made of two
  groups of two to four digits around a hyphen becomes a year range: a group of two
  digits counts from 1900, except that a two-digit second group after a four-digit
  first group is placed in the first group's century, and the range runs from the
  smaller to the larger year. No other token is read as a range. A token of exactly
  four digits becomes an exact year. Every other token is free text; the free text is
  joined and tokenized into the text tokens. The three example queries parse as stated.
  The tokens that are classified are white-space separated and punctuation-stripped: a
  raw token is non-empty and holds no white space, cleaning a token removes exactly the
  characters outside \<open>[0-9a-z-]\<close> and keeps the others in order, and a token that cleaning
  empties is skipped; so \<open>Queen, (1980)!\<close> gives the text \<open>queen\<close> and the year 1980, and
  \<open>[1975-83]  Q.u.e.e.n\<close> gives the range 1975 to 1983 and the text \<open>queen\<close>.
\<close>

theorem parseSearch_classifies:
  "(digits2to4 a \<and> digits2to4 b \<longrightarrow>
      parseYearRangeToken (a @ ''-'' @ b) =
        (let left = (if length a = 2 then 1900 + int (digitsValue a) else int (digitsValue a));
             right = (if length a = 4 \<and> length b = 2 then (left div 100) * 100 + int (digitsValue b)
                      else if length b = 2 then 1900 + int (digitsValue b)
                      else int (digitsValue b))
         in Some \<lparr>rangeStart = min left right, rangeEnd = max left right\<rparr>)) \<and>
   ((\<nexists>a b. t = a @ ''-'' @ b \<and> digits2to4 a \<and> digits2to4 b) \<longrightarrow> parseYearRangeToken t = None) \<and>
   (parseYearRangeToken t = Some r \<longrightarrow> rangeStart r \<le> rangeEnd r) \<and>
   yearRanges (parseSearch q) = List.map_filter parseYearRangeToken (cleanedTokens (rawTokens q)) \<and>
   yearValues (parseSearch q) =
     map (\<lambda>t. int (digitsValue t))
       (filter (\<lambda>t. length t = 4 \<and> list_all isDigit t) (cleanedTokens (rawTokens q))) \<and>
   textTokens (parseSearch q) =
     tokenize (join '' ''
       (filter (\<lambda>t. parseYearRangeToken t = None \<and> \<not> (length t = 4 \<and> list_all isDigit t))
          (cleanedTokens (rawTokens q)))) \<and>
   parseSearch ''queen 1980'' = \<lparr>textTokens = [''queen''], yearValues = [1980], yearRanges = []\<rparr> \<and>
   parseSearch ''75-83''
     = \<lparr>textTokens = [], yearValues = [], yearRanges = [\<lparr>rangeStart = 1975, rangeEnd = 1983\<rparr>]\<rparr> \<and>
   parseSearch ''bohemian rhapsody''
     = \<lparr>textTokens = [''bohemian'', ''rhapsody''], yearValues = [], yearRanges = []\<rparr> \<and>
   cleanToken tok = filter (\<lambda>c. c \<in> set ''0123456789abcdefghijklmnopqrstuvwxyz-'') tok \<and>
   cleanedTokens toks =
     filter (\<lambda>t. t \<noteq> [])
       (map (filter (\<lambda>c. c \<in> set ''0123456789abcdefghijklmnopqrstuvwxyz-'')) toks) \<and>
   (tk \<in> set (rawTokens q) \<longrightarrow> tk \<noteq> [] \<and> (\<forall>c \<in> set tk. \<not> isSpace c)) \<and>
   (tk \<in> set (cleanedTokens (rawTokens q)) \<longrightarrow>
      tk \<noteq> [] \<and> (\<forall>c \<in> set tk. c \<in> set ''0123456789abcdefghijklmnopqrstuvwxyz-'')) \<and>
   cleanedTokens (rawTokens '' Queen,  (1980)! ... '') = [''queen'', ''1980''] \<and>
   parseSearch ''Queen, (1980)!''
     = \<lparr>textTokens = [''queen''], yearValues = [1980], yearRanges = []\<rparr> \<and>
   parseSearch ''[1975-83]  Q.u.e.e.n''
     = \<lparr>textTokens = [''queen''], yearValues = [],
        yearRanges = [\<lparr>rangeStart = 1975, rangeEnd = 1983\<rparr>]\<rparr>"
proof (intro conjI impI)
  show "parseYearRangeToken (a @ ''-'' @ b) =
        (let left = (if length a = 2 then 1900 + int (digitsValue a) else int (digitsValue a));
             right = (if length a = 4 \<and> length b = 2 then (left div 100) * 100 + int (digitsValue b)
                      else if length b = 2 then 1900 + int (digitsValue b)
                      else int (digitsValue b))
         in Some \<lparr>rangeStart = min left right, rangeEnd = max left right\<rparr>)"
    if "digits2to4 a \<and> digits2to4 b"
    using that parseYearRangeToken_shape by blast
  show "parseYearRangeToken t = None" if "\<nexists>a b. t = a @ ''-'' @ b \<and> digits2to4 a \<and> digits2to4 b"
  proof (cases "parseYearRangeToken t")
    case None
    then show ?thesis .
  next
    case (Some r')
    from parseYearRangeToken_SomeD [OF this] that show ?thesis by blast
  qed
  show "rangeStart r \<le> rangeEnd r" if "parseYearRangeToken t = Some r"
    using that by (rule range_ordered)
  show "yearRanges (parseSearch q) = List.map_filter parseYearRangeToken (cleanedTokens (rawTokens q))"
    by (simp add: parseSearch_def classifyTokens_eq)
  show "yearValues (parseSearch q) =
     map (\<lambda>t. int (digitsValue t))
       (filter (\<lambda>t. length t = 4 \<and> list_all isDigit t) (cleanedTokens (rawTokens q)))"
    by (simp add: parseSearch_def classifyTokens_eq)
  show "textTokens (parseSearch q) =
     tokenize (join '' ''
       (filter (\<lambda>t. parseYearRangeToken t = None \<and> \<not> (length t = 4 \<and> list_all isDigit t))
          (cleanedTokens (rawTokens q))))"
    by (simp add: parseSearch_def classifyTokens_eq)
  show "parseSearch ''queen 1980'' = \<lparr>textTokens = [''queen''], yearValues = [1980], yearRanges = []\<rparr>"
    by code_simp
  show "parseSearch ''75-83''
     = \<lparr>textTokens = [], yearValues = [], yearRanges = [\<lparr>rangeStart = 1975, rangeEnd = 1983\<rparr>]\<rparr>"
    by code_simp
  show "parseSearch ''bohemian rhapsody''
     = \<lparr>textTokens = [''bohemian'', ''rhapsody''], yearValues = [], yearRanges = []\<rparr>"
    by code_simp
  show "cleanToken tok = filter (\<lambda>c. c \<in> set ''0123456789abcdefghijklmnopqrstuvwxyz-'') tok"
    by (rule cleanToken_filter)
  show "cleanedTokens toks =
     filter (\<lambda>t. t \<noteq> [])
       (map (filter (\<lambda>c. c \<in> set ''0123456789abcdefghijklmnopqrstuvwxyz-'')) toks)"
  proof -
    have "map cleanToken toks
            = map (filter (\<lambda>c. c \<in> set ''0123456789abcdefghijklmnopqrstuvwxyz-'')) toks"
      by (rule map_cong [OF refl]) (rule cleanToken_filter)
    then show ?thesis by (simp only: cleanedTokens_def)
  qed
  show "tk \<noteq> []" if "tk \<in> set (rawTokens q)"
    using rawTokens_no_space [OF that] by blast
  show "\<forall>c \<in> set tk. \<not> isSpace c" if "tk \<in> set (rawTokens q)"
    using rawTokens_no_space [OF that] by blast
  show "tk \<noteq> []" if "tk \<in> set (cleanedTokens (rawTokens q))"
    using that by (simp add: cleanedTokens_def)
  show "\<forall>c \<in> set tk. c \<in> set ''0123456789abcdefghijklmnopqrstuvwxyz-''"
    if "tk \<in> set (cleanedTokens (rawTokens q))"
  proof -
    from that obtain raw where "tk = cleanToken raw" by (auto simp: cleanedTokens_def)
    then have "tk = filter (\<lambda>c. c \<in> set ''0123456789abcdefghijklmnopqrstuvwxyz-'') raw"
      by (simp only: cleanToken_filter)
    then have "set tk \<subseteq> {c. c \<in> set ''0123456789abcdefghijklmnopqrstuvwxyz-''}"
      by (simp only: set_filter) blast
    then show ?thesis by blast
  qed
  show "cleanedTokens (rawTokens '' Queen,  (1980)! ... '') = [''queen'', ''1980'']"
    by code_simp
  show "parseSearch ''Queen, (1980)!''
     = \<lparr>textTokens = [''queen''], yearValues = [1980], yearRanges = []\<rparr>"
    by code_simp
  show "parseSearch ''[1975-83]  Q.u.e.e.n''
     = \<lparr>textTokens = [''queen''], yearValues = [],
        yearRanges = [\<lparr>rangeStart = 1975, rangeEnd = 1983\<rparr>]\<rparr>"
    by code_simp
qed

theorem parseSearch_classifies_witness:
  "digits2to4 ''1975'' \<and> digits2to4 ''83'' \<and>
   parseYearRangeToken ''1975-83'' = Some \<lparr>rangeStart = 1975, rangeEnd = 1983\<rparr> \<and>
   (\<nexists>a b. ''queen'' = a @ ''-'' @ b \<and> digits2to4 a \<and> digits2to4 b) \<and>
   parseYearRangeToken ''queen'' = None \<and>
   parseYearRangeToken ''90-85'' = Some \<lparr>rangeStart = 1985, rangeEnd = 1990\<rparr> \<and>
   rangeStart \<lparr>rangeStart = 1985, rangeEnd = 1990\<rparr> \<le> rangeEnd \<lparr>rangeStart = 1985, rangeEnd = 1990\<rparr> \<and>
   ''queen,'' \<in> set (rawTokens ''Queen, (1980)!'') \<and>
   list_all (\<lambda>c. \<not> isSpace c) ''queen,'' \<and>
   ''1980'' \<in> set (cleanedTokens (rawTokens ''Queen, (1980)!'')) \<and>
   list_all (\<lambda>c. c \<in> set ''0123456789abcdefghijklmnopqrstuvwxyz-'') ''1980''"
proof -
  have d: "digits2to4 ''1975''" "digits2to4 ''83''" by code_simp+
  have v: "digitsValue ''1975'' = 1975" "digitsValue ''83'' = 83" by code_simp+
  have n: "\<nexists>a b. ''queen'' = a @ ''-'' @ b \<and> digits2to4 a \<and> digits2to4 b"
  proof
    assume "\<exists>a b. ''queen'' = a @ ''-'' @ b \<and> digits2to4 a \<and> digits2to4 b"
    then obtain a b where "''queen'' = a @ ''-'' @ b" by blast
    then have "set ''queen'' = set (a @ ''-'' @ b)" by simp
    then have "CHR ''-'' \<in> set ''queen''" by simp
    then show False by simp
  qed
  have s: "parseYearRangeToken ''90-85'' = Some \<lparr>rangeStart = 1985, rangeEnd = 1990\<rparr>" by code_simp
  have m1: "''queen,'' \<in> set (rawTokens ''Queen, (1980)!'')" by code_simp
  have m2: "''1980'' \<in> set (cleanedTokens (rawTokens ''Queen, (1980)!''))" by code_simp
  from parseSearch_classifies [of "''1975''" "''83''"] d v
  have "parseYearRangeToken ''1975-83'' = Some \<lparr>rangeStart = 1975, rangeEnd = 1983\<rparr>"
    by (simp add: Let_def)
  moreover from parseSearch_classifies [of _ _ "''queen''"] n
  have "parseYearRangeToken ''queen'' = None" by blast
  moreover from parseSearch_classifies [of _ _ "''90-85''" "\<lparr>rangeStart = 1985, rangeEnd = 1990\<rparr>"] s
  have "rangeStart \<lparr>rangeStart = 1985, rangeEnd = 1990\<rparr> \<le> rangeEnd \<lparr>rangeStart = 1985, rangeEnd = 1990\<rparr>"
    by blast
  moreover from parseSearch_classifies [of _ _ _ _ "''Queen, (1980)!''" _ _ "''queen,''"] m1
  have "list_all (\<lambda>c. \<not> isSpace c) ''queen,''" unfolding list_all_iff by blast
  moreover from parseSearch_classifies [of _ _ _ _ "''Queen, (1980)!''" _ _ "''1980''"] m2
  have "list_all (\<lambda>c. c \<in> set ''0123456789abcdefghijklmnopqrstuvwxyz-'') ''1980''"
    unfolding list_all_iff by blast
  ultimately show ?thesis using d n s m1 m2 by blast
qed

end
